theory Spec2Isabelle
  imports Complex_Main
begin

section \<open>JavaScript strings\<close>

text \<open>
  A JavaScript string is modelled as a \<^typ>\<open>string\<close>, a list of characters with code
  units in the range 0 to 255. The regular expressions of the program mention ASCII
  letters, digits and white space only, and a pattern without the \<open>u\<close> flag never lets a
  character outside ASCII match an ASCII letter under the \<open>i\<close> flag, so on this range the
  definitions below are the engine's own.
\<close>

definition isDigit :: "char \<Rightarrow> bool" where
  "isDigit c = (c \<in> set ''0123456789'')"

definition isLowerLetter :: "char \<Rightarrow> bool" where
  "isLowerLetter c = (c \<in> set ''abcdefghijklmnopqrstuvwxyz'')"

definition isUpperLetter :: "char \<Rightarrow> bool" where
  "isUpperLetter c = (c \<in> set ''ABCDEFGHIJKLMNOPQRSTUVWXYZ'')"

text \<open>The class \<open>\s\<close> and the characters \<open>trim\<close> strips: tab, line feed, vertical tab,
  form feed, carriage return, space and the no-break space.\<close>

definition isSpace :: "char \<Rightarrow> bool" where
  "isSpace c = (of_char c \<in> {9, 10, 11, 12, 13, 32, 160 :: nat})"

text \<open>\<open>String.prototype.toLowerCase\<close> on one code unit: the ASCII capitals and the capitals
  of the Latin-1 block move up by 32.\<close>

definition lowerChar :: "char \<Rightarrow> char" where
  "lowerChar c =
     (let n = (of_char c :: nat)
      in if (65 \<le> n \<and> n \<le> 90) \<or> (192 \<le> n \<and> n \<le> 214) \<or> (216 \<le> n \<and> n \<le> 222)
         then char_of (n + 32) else c)"

definition toLowerCase :: "string \<Rightarrow> string" where
  "toLowerCase s = map lowerChar s"

text \<open>The canonical form the \<open>i\<close> flag compares: an ASCII small letter becomes its
  capital, every other character stays.\<close>

definition canonicalize :: "char \<Rightarrow> char" where
  "canonicalize c = (if isLowerLetter c then char_of (of_char c - (32 :: nat)) else c)"

text \<open>A literal pattern, compared under the \<open>i\<close> flag, matches at the start of the text.\<close>

definition startsWithCI :: "string \<Rightarrow> string \<Rightarrow> bool" where
  "startsWithCI pat s =
     (length pat \<le> length s \<and> map canonicalize (take (length pat) s) = map canonicalize pat)"

text \<open>\<open>parseInt\<close> on a run of decimal digits.\<close>

definition digitValue :: "char \<Rightarrow> nat" where
  "digitValue c = of_char c - 48"

definition parseInt :: "string \<Rightarrow> nat" where
  "parseInt ds = foldl (\<lambda>n c. 10 * n + digitValue c) 0 ds"

section \<open>JavaScript numbers, booleans and dates\<close>

text \<open>
  The progress of a session is a JavaScript number that is an integer or \<open>NaN\<close>: the
  program stores and compares whole percentages. The quotients and sums the dashboard
  forms of them are doubles, which are modelled where the dashboard is.
\<close>

datatype number = Val int | NaN

definition digitChar :: "nat \<Rightarrow> char" where
  "digitChar d = char_of (48 + d)"

fun natToString :: "nat \<Rightarrow> string" where
  "natToString n =
     (if n < 10 then [digitChar n] else natToString (n div 10) @ [digitChar (n mod 10)])"

text \<open>\<open>Number.prototype.toString\<close> and \<open>Boolean.prototype.toString\<close>.\<close>

definition numberToString :: "number \<Rightarrow> string" where
  "numberToString x =
     (case x of
        NaN \<Rightarrow> ''NaN''
      | Val i \<Rightarrow> if i < 0 then CHR ''-'' # natToString (nat (- i)) else natToString (nat i))"

definition booleanToString :: "bool \<Rightarrow> string" where
  "booleanToString b = (if b then ''true'' else ''false'')"

definition trim :: "string \<Rightarrow> string" where
  "trim s = rev (dropWhile isSpace (rev (dropWhile isSpace s)))"

text \<open>
  \<open>Number(s)\<close> on a string: white space is trimmed, the empty text is 0, an optionally
  signed run of decimal digits is its value. Every other text is \<open>NaN\<close> here; JavaScript
  also reads fractions, exponents, radix prefixes and \<open>Infinity\<close>, none of which the
  program writes into the store.
\<close>

definition allDigits :: "string \<Rightarrow> bool" where
  "allDigits ds = (ds \<noteq> [] \<and> list_all isDigit ds)"

definition Number :: "string \<Rightarrow> number" where
  "Number s =
     (case trim s of
        [] \<Rightarrow> Val 0
      | c # ds \<Rightarrow>
          if c = CHR ''-'' \<and> allDigits ds then Val (- int (parseInt ds))
          else if c = CHR ''+'' \<and> allDigits ds then Val (int (parseInt ds))
          else if allDigits (c # ds) then Val (int (parseInt (c # ds)))
          else NaN)"

text \<open>\<open>x >= 100\<close> and \<open>x > 0\<close>: every comparison with \<open>NaN\<close> is false.\<close>

definition numberGe :: "number \<Rightarrow> int \<Rightarrow> bool" where
  "numberGe x k = (case x of Val i \<Rightarrow> k \<le> i | NaN \<Rightarrow> False)"

definition numberGt :: "number \<Rightarrow> int \<Rightarrow> bool" where
  "numberGt x k = (case x of Val i \<Rightarrow> k < i | NaN \<Rightarrow> False)"

text \<open>
  A \<open>Date\<close> is the instant it holds, in milliseconds since the epoch. A calendar day, the
  text \<open>yyyy-MM-dd\<close>, is modelled by the number of the day since 1970-01-01: writing and
  reading the digits of a day are inverse to each other and are left out.
  \<open>new Date('yyyy-MM-dd')\<close> is midnight of that day in UTC; \<open>format(date, 'yyyy-MM-dd')\<close> of
  date-fns names the day of the instant on the local clock, which is \<open>tz\<close> minutes ahead
  of UTC.
\<close>

type_synonym instant = int
type_synonym day = int

definition newDate :: "day \<Rightarrow> instant" where
  "newDate d = d * 86400000"

definition format_yyyy_MM_dd :: "int \<Rightarrow> instant \<Rightarrow> day" where
  "format_yyyy_MM_dd tz t = (t + tz * 60000) div 86400000"

section \<open>The record store\<close>

text \<open>
  The hosted store is modelled by its five tables, as the generated schema types them,
  and the two things it hands out itself: fresh identifiers and time stamps. An
  identifier is a text in the program and is only ever compared; here it is either the
  number the server drew or a number made by the client. Every call of the program into
  the store comes with a \<open>call\<close>: whether the call fails (with which message) and how
  much later than the previous call it reaches the server clock, which never runs
  backwards. A failing call leaves the store as it is.
\<close>

datatype ident = ServerId nat | ClientId nat

datatype 'a response = Data 'a | Error string

record call =
  failure :: "string option"
  elapsed :: nat

record study_session_row =
  sr_id :: ident
  sr_user_id :: string
  sr_subject :: string
  sr_topic :: string
  sr_date :: day
  sr_startTime :: "string option"
  sr_duration :: string
  sr_notes :: "string option"
  sr_created_at :: nat
  sr_progress :: "string option"
  sr_completed :: "string option"

record doubt_row =
  dr_id :: ident
  dr_question :: string
  dr_solved :: bool
  dr_subject :: string
  dr_timestamp :: nat
  dr_user_id :: string

record message_row =
  mr_id :: ident
  mr_doubt_id :: ident
  mr_content :: string
  mr_sender :: string
  mr_timestamp :: nat

record deck_row =
  kr_id :: ident
  kr_name :: string
  kr_subject :: string
  kr_user_id :: string
  kr_created_at :: nat

record card_row =
  cr_id :: ident
  cr_deck_id :: ident
  cr_front :: string
  cr_back :: string
  cr_created_at :: nat

record store =
  next_id :: nat
  clock :: nat
  study_sessions :: "study_session_row list"
  doubts :: "doubt_row list"
  doubt_messages :: "message_row list"
  flashcard_decks :: "deck_row list"
  flashcards :: "card_row list"

definition arrive :: "call \<Rightarrow> store \<Rightarrow> store" where
  "arrive c st = st\<lparr>clock := clock st + elapsed c\<rparr>"

subsection \<open>Table \<open>study_sessions\<close>\<close>

record new_study_session =
  ns_user_id :: string
  ns_subject :: string
  ns_topic :: string
  ns_date :: day
  ns_startTime :: "string option"
  ns_duration :: string
  ns_notes :: "string option"
  ns_progress :: "string option"
  ns_completed :: "string option"

text \<open>\<^verbatim>\<open>.insert(row).select('*').single()\<close>\<close>

definition insert_study_session ::
  "call \<Rightarrow> new_study_session \<Rightarrow> store \<Rightarrow> study_session_row response \<times> store" where
  "insert_study_session c n st =
     (case failure c of
        Some e \<Rightarrow> (Error e, st)
      | None \<Rightarrow>
          let st1 = arrive c st;
              row = \<lparr> sr_id = ServerId (next_id st1), sr_user_id = ns_user_id n,
                      sr_subject = ns_subject n, sr_topic = ns_topic n, sr_date = ns_date n,
                      sr_startTime = ns_startTime n, sr_duration = ns_duration n,
                      sr_notes = ns_notes n, sr_created_at = clock st1,
                      sr_progress = ns_progress n, sr_completed = ns_completed n \<rparr>
          in (Data row,
              st1\<lparr>next_id := Suc (next_id st1), study_sessions := study_sessions st1 @ [row]\<rparr>))"

text \<open>\<^verbatim>\<open>.update({ progress, completed }).eq('id', sessionId)\<close>\<close>

definition update_study_session ::
  "call \<Rightarrow> ident \<Rightarrow> string \<Rightarrow> string \<Rightarrow> store \<Rightarrow> unit response \<times> store" where
  "update_study_session c sessionId p d st =
     (case failure c of
        Some e \<Rightarrow> (Error e, st)
      | None \<Rightarrow>
          (Data (),
           (arrive c st)\<lparr>study_sessions :=
              map (\<lambda>r. if sr_id r = sessionId
                        then r\<lparr>sr_progress := Some p, sr_completed := Some d\<rparr> else r)
                (study_sessions st)\<rparr>))"

text \<open>\<^verbatim>\<open>.delete().eq('id', id)\<close>\<close>

definition delete_study_session :: "call \<Rightarrow> ident \<Rightarrow> store \<Rightarrow> unit response \<times> store" where
  "delete_study_session c sessionId st =
     (case failure c of
        Some e \<Rightarrow> (Error e, st)
      | None \<Rightarrow>
          (Data (),
           (arrive c st)\<lparr>study_sessions :=
              filter (\<lambda>r. sr_id r \<noteq> sessionId) (study_sessions st)\<rparr>))"

text \<open>\<^verbatim>\<open>.select('*').eq('user_id', user.id).eq('subject', subject)\<close>\<close>

definition select_study_sessions_of_subject ::
  "call \<Rightarrow> string \<Rightarrow> string \<Rightarrow> store \<Rightarrow> study_session_row list response" where
  "select_study_sessions_of_subject c u subj st =
     (case failure c of
        Some e \<Rightarrow> Error e
      | None \<Rightarrow> Data (filter (\<lambda>r. sr_user_id r = u \<and> sr_subject r = subj) (study_sessions st)))"

text \<open>\<^verbatim>\<open>.select('*').eq('user_id', user.id).order('date', { ascending: true })\<close>\<close>

definition select_study_sessions_by_date ::
  "call \<Rightarrow> string \<Rightarrow> store \<Rightarrow> study_session_row list response" where
  "select_study_sessions_by_date c u st =
     (case failure c of
        Some e \<Rightarrow> Error e
      | None \<Rightarrow> Data (sort_key sr_date (filter (\<lambda>r. sr_user_id r = u) (study_sessions st))))"

subsection \<open>Tables \<open>flashcard_decks\<close> and \<open>flashcards\<close>\<close>

definition insert_flashcard_deck ::
  "call \<Rightarrow> string \<Rightarrow> string \<Rightarrow> string \<Rightarrow> store \<Rightarrow> deck_row response \<times> store" where
  "insert_flashcard_deck c name subj u st =
     (case failure c of
        Some e \<Rightarrow> (Error e, st)
      | None \<Rightarrow>
          let st1 = arrive c st;
              row = \<lparr> kr_id = ServerId (next_id st1), kr_name = name, kr_subject = subj,
                      kr_user_id = u, kr_created_at = clock st1 \<rparr>
          in (Data row,
              st1\<lparr>next_id := Suc (next_id st1), flashcard_decks := flashcard_decks st1 @ [row]\<rparr>))"

record new_flashcard =
  nc_deck_id :: ident
  nc_front :: string
  nc_back :: string

text \<open>\<^verbatim>\<open>.insert([...])\<close> of several cards at once: every card must name a deck of the store
  (the foreign key of the schema), and each gets the next fresh identifier.\<close>

definition insert_flashcards ::
  "call \<Rightarrow> new_flashcard list \<Rightarrow> store \<Rightarrow> card_row list response \<times> store" where
  "insert_flashcards c cards st =
     (case failure c of
        Some e \<Rightarrow> (Error e, st)
      | None \<Rightarrow>
          if \<not> list_all (\<lambda>n. nc_deck_id n \<in> set (map kr_id (flashcard_decks st))) cards
          then (Error ''violates foreign key constraint flashcards_deck_id_fkey'', st)
          else
            let st1 = arrive c st;
                rows = map (\<lambda>(k, n). \<lparr> cr_id = ServerId k, cr_deck_id = nc_deck_id n,
                                        cr_front = nc_front n, cr_back = nc_back n,
                                        cr_created_at = clock st1 \<rparr>)
                         (enumerate (next_id st1) cards)
            in (Data rows,
                st1\<lparr>next_id := next_id st1 + length cards, flashcards := flashcards st1 @ rows\<rparr>))"

text \<open>\<^verbatim>\<open>.delete().in('id', deletedCardIds)\<close>\<close>

definition delete_flashcards :: "call \<Rightarrow> ident list \<Rightarrow> store \<Rightarrow> unit response \<times> store" where
  "delete_flashcards c ids st =
     (case failure c of
        Some e \<Rightarrow> (Error e, st)
      | None \<Rightarrow>
          (Data (),
           (arrive c st)\<lparr>flashcards := filter (\<lambda>r. cr_id r \<notin> set ids) (flashcards st)\<rparr>))"

text \<open>\<^verbatim>\<open>.update({ front, back }).eq('id', card.id)\<close>\<close>

definition update_flashcard ::
  "call \<Rightarrow> ident \<Rightarrow> string \<Rightarrow> string \<Rightarrow> store \<Rightarrow> unit response \<times> store" where
  "update_flashcard c i front back st =
     (case failure c of
        Some e \<Rightarrow> (Error e, st)
      | None \<Rightarrow>
          (Data (),
           (arrive c st)\<lparr>flashcards :=
              map (\<lambda>r. if cr_id r = i then r\<lparr>cr_front := front, cr_back := back\<rparr> else r)
                (flashcards st)\<rparr>))"

text \<open>\<^verbatim>\<open>.select('*').eq('user_id', user.id).order('created_at', { ascending: false })\<close>\<close>

definition select_flashcard_decks :: "call \<Rightarrow> string \<Rightarrow> store \<Rightarrow> deck_row list response" where
  "select_flashcard_decks c u st =
     (case failure c of
        Some e \<Rightarrow> Error e
      | None \<Rightarrow>
          Data (sort_key (\<lambda>r. - int (kr_created_at r))
                  (filter (\<lambda>r. kr_user_id r = u) (flashcard_decks st))))"

text \<open>\<^verbatim>\<open>.select('*').eq('deck_id', deck.id)\<close>\<close>

definition select_flashcards :: "call \<Rightarrow> ident \<Rightarrow> store \<Rightarrow> card_row list response" where
  "select_flashcards c deck st =
     (case failure c of
        Some e \<Rightarrow> Error e
      | None \<Rightarrow> Data (filter (\<lambda>r. cr_deck_id r = deck) (flashcards st)))"

subsection \<open>Tables \<open>doubts\<close> and \<open>doubt_messages\<close>\<close>

text \<open>A new doubt is unsolved and, like a new message, is stamped with the server clock;
  a message must name a doubt of the store (the foreign key of the schema).\<close>

definition insert_doubt ::
  "call \<Rightarrow> string \<Rightarrow> string \<Rightarrow> string \<Rightarrow> store \<Rightarrow> doubt_row response \<times> store" where
  "insert_doubt c question u subj st =
     (case failure c of
        Some e \<Rightarrow> (Error e, st)
      | None \<Rightarrow>
          let st1 = arrive c st;
              row = \<lparr> dr_id = ServerId (next_id st1), dr_question = question,
                      dr_solved = False, dr_subject = subj, dr_timestamp = clock st1,
                      dr_user_id = u \<rparr>
          in (Data row, st1\<lparr>next_id := Suc (next_id st1), doubts := doubts st1 @ [row]\<rparr>))"

definition insert_doubt_message ::
  "call \<Rightarrow> ident \<Rightarrow> string \<Rightarrow> string \<Rightarrow> store \<Rightarrow> message_row response \<times> store" where
  "insert_doubt_message c doubt content sender st =
     (case failure c of
        Some e \<Rightarrow> (Error e, st)
      | None \<Rightarrow>
          if doubt \<notin> set (map dr_id (doubts st))
          then (Error ''violates foreign key constraint doubt_messages_doubt_id_fkey'', st)
          else
            let st1 = arrive c st;
                row = \<lparr> mr_id = ServerId (next_id st1), mr_doubt_id = doubt,
                        mr_content = content, mr_sender = sender, mr_timestamp = clock st1 \<rparr>
            in (Data row,
                st1\<lparr>next_id := Suc (next_id st1), doubt_messages := doubt_messages st1 @ [row]\<rparr>))"

text \<open>\<^verbatim>\<open>.update({ solved: true }).eq('id', id)\<close>\<close>

definition update_doubt_solved :: "call \<Rightarrow> ident \<Rightarrow> store \<Rightarrow> unit response \<times> store" where
  "update_doubt_solved c i st =
     (case failure c of
        Some e \<Rightarrow> (Error e, st)
      | None \<Rightarrow>
          (Data (),
           (arrive c st)\<lparr>doubts :=
              map (\<lambda>r. if dr_id r = i then r\<lparr>dr_solved := True\<rparr> else r) (doubts st)\<rparr>))"

text \<open>\<^verbatim>\<open>.select('*').eq('user_id', user.id).order('timestamp', { ascending: false })\<close>\<close>

definition select_doubts :: "call \<Rightarrow> string \<Rightarrow> store \<Rightarrow> doubt_row list response" where
  "select_doubts c u st =
     (case failure c of
        Some e \<Rightarrow> Error e
      | None \<Rightarrow>
          Data (sort_key (\<lambda>r. - int (dr_timestamp r))
                  (filter (\<lambda>r. dr_user_id r = u) (doubts st))))"

text \<open>\<^verbatim>\<open>.select('*').eq('doubt_id', doubt.id).order('timestamp', { ascending: true })\<close>\<close>

definition select_doubt_messages :: "call \<Rightarrow> ident \<Rightarrow> store \<Rightarrow> message_row list response" where
  "select_doubt_messages c doubt st =
     (case failure c of
        Some e \<Rightarrow> Error e
      | None \<Rightarrow>
          Data (sort_key mr_timestamp (filter (\<lambda>r. mr_doubt_id r = doubt) (doubt_messages st))))"

section \<open>The events of the channel \<open>dashboard-updates\<close>\<close>

text \<open>The stored text of a session's progress and completion, read back the way every view
  does: \<^verbatim>\<open>session.progress ? Number(session.progress) : 0\<close> and
  \<^verbatim>\<open>session.completed === 'true'\<close> (the schema types both columns as text or null, so
  the branches for a stored number or boolean are not reached).\<close>

definition decodeProgress :: "string option \<Rightarrow> number" where
  "decodeProgress p = (case p of None \<Rightarrow> Val 0 | Some s \<Rightarrow> if s = [] then Val 0 else Number s)"

definition decodeCompleted :: "string option \<Rightarrow> bool" where
  "decodeCompleted d = (d = Some ''true'')"

definition orEmpty :: "string option \<Rightarrow> string" where
  "orEmpty v = (case v of None \<Rightarrow> [] | Some s \<Rightarrow> s)"

record StudySession =
  ss_id :: ident
  ss_user_id :: string
  ss_subject :: string
  ss_topic :: string
  ss_date :: instant
  ss_startTime :: string
  ss_duration :: string
  ss_notes :: string
  ss_created_at :: nat
  ss_progress :: number
  ss_completed :: bool

datatype DashboardEvent =
    SessionCreated StudySession
  | SessionUpdated ident number bool "string option"
  | SessionCompleted ident "string option"
  | SessionDeleted ident string
  | SessionRestored StudySession
  | DoubtCreated ident string
  | DoubtUpdated ident bool

section \<open>Study planner\<close>

text \<open>
  A handler of the planner runs on the list of sessions its render holds
  (\<open>studySessions\<close>) and on the store; it gives back the list it sets, the store, and the
  events it broadcasts. Notifications shown to the user are left out. \<open>user\<close> is the
  identifier of the signed-in user, if any.
\<close>

definition toStudySession :: "study_session_row \<Rightarrow> StudySession" where
  "toStudySession r =
     \<lparr> ss_id = sr_id r, ss_user_id = sr_user_id r, ss_subject = sr_subject r,
       ss_topic = sr_topic r, ss_date = newDate (sr_date r),
       ss_startTime = orEmpty (sr_startTime r), ss_duration = sr_duration r,
       ss_notes = orEmpty (sr_notes r), ss_created_at = sr_created_at r,
       ss_progress = decodeProgress (sr_progress r),
       ss_completed = decodeCompleted (sr_completed r) \<rparr>"

record FormValues =
  fv_subject :: string
  fv_topic :: string
  fv_date :: instant
  fv_startTime :: string
  fv_duration :: string
  fv_notes :: "string option"

definition onSubmit ::
  "int \<Rightarrow> string option \<Rightarrow> call \<Rightarrow> FormValues \<Rightarrow> StudySession list \<Rightarrow> store
     \<Rightarrow> StudySession list \<times> store \<times> DashboardEvent list" where
  "onSubmit tz user c values' studySessions st =
     (case user of
        None \<Rightarrow> (studySessions, st, [])
      | Some u \<Rightarrow>
          (case insert_study_session c
                  \<lparr> ns_user_id = u, ns_subject = fv_subject values', ns_topic = fv_topic values',
                    ns_date = format_yyyy_MM_dd tz (fv_date values'),
                    ns_startTime = Some (fv_startTime values'),
                    ns_duration = fv_duration values',
                    ns_notes = (if orEmpty (fv_notes values') = [] then None else fv_notes values'),
                    ns_progress = Some ''0'', ns_completed = Some ''false'' \<rparr> st of
             (Error e, st') \<Rightarrow> (studySessions, st', [])
           | (Data row, st') \<Rightarrow>
               let formattedSession = toStudySession row
               in (formattedSession # studySessions, st', [SessionCreated formattedSession])))"

definition updateSessionProgress ::
  "string option \<Rightarrow> call \<Rightarrow> ident \<Rightarrow> number \<Rightarrow> StudySession list \<Rightarrow> store
     \<Rightarrow> StudySession list \<times> store \<times> DashboardEvent list" where
  "updateSessionProgress user c sessionId progress studySessions st =
     (case user of
        None \<Rightarrow> (studySessions, st, [])
      | Some u \<Rightarrow>
          let completed = numberGe progress 100
          in (case update_study_session c sessionId
                     (numberToString progress) (booleanToString completed) st of
                (Error e, st') \<Rightarrow> (studySessions, st', [])
              | (Data _, st') \<Rightarrow>
                  let updatedSessions =
                        map (\<lambda>session. if ss_id session = sessionId
                               then session\<lparr>ss_progress := progress, ss_completed := completed\<rparr>
                               else session) studySessions
                  in (updatedSessions, st',
                      [SessionUpdated sessionId progress completed
                         (map_option ss_subject
                            (find (\<lambda>s. ss_id s = sessionId) updatedSessions))])))"

definition markSessionComplete ::
  "string option \<Rightarrow> call \<Rightarrow> ident \<Rightarrow> StudySession list \<Rightarrow> store
     \<Rightarrow> StudySession list \<times> store \<times> DashboardEvent list" where
  "markSessionComplete user c sessionId studySessions st =
     (case user of
        None \<Rightarrow> (studySessions, st, [])
      | Some u \<Rightarrow>
          (case update_study_session c sessionId ''100'' ''true'' st of
             (Error e, st') \<Rightarrow> (studySessions, st', [])
           | (Data _, st') \<Rightarrow>
               let updatedSessions =
                     map (\<lambda>session. if ss_id session = sessionId
                            then session\<lparr>ss_progress := Val 100, ss_completed := True\<rparr>
                            else session) studySessions
               in (updatedSessions, st',
                   [SessionCompleted sessionId
                      (map_option ss_subject
                         (find (\<lambda>s. ss_id s = sessionId) updatedSessions))])))"

text \<open>\<open>deleteSession\<close> also gives back the session its notification offers to restore: the
  \<open>Undo\<close> button exists when the session was found in the list.\<close>

definition deleteSession ::
  "call \<Rightarrow> ident \<Rightarrow> StudySession list \<Rightarrow> store
     \<Rightarrow> StudySession list \<times> store \<times> DashboardEvent list \<times> StudySession option" where
  "deleteSession c i studySessions st =
     (let sessionToDelete = find (\<lambda>session. ss_id session = i) studySessions
      in (case delete_study_session c i st of
            (Error e, st') \<Rightarrow> (studySessions, st', [], None)
          | (Data _, st') \<Rightarrow>
              (filter (\<lambda>session. ss_id session \<noteq> i) studySessions, st',
               (case sessionToDelete of
                  Some s \<Rightarrow> [SessionDeleted i (ss_subject s)]
                | None \<Rightarrow> []),
               sessionToDelete)))"

definition handleUndoDelete ::
  "int \<Rightarrow> call \<Rightarrow> StudySession \<Rightarrow> StudySession list \<Rightarrow> store
     \<Rightarrow> StudySession list \<times> store \<times> DashboardEvent list" where
  "handleUndoDelete tz c session studySessions st =
     (case insert_study_session c
             \<lparr> ns_user_id = ss_user_id session, ns_subject = ss_subject session,
               ns_topic = ss_topic session,
               ns_date = format_yyyy_MM_dd tz (ss_date session),
               ns_startTime = Some (ss_startTime session),
               ns_duration = ss_duration session,
               ns_notes = Some (ss_notes session),
               ns_progress = Some (numberToString (ss_progress session)),
               ns_completed = Some (booleanToString (ss_completed session)) \<rparr> st of
        (Error e, st') \<Rightarrow> (studySessions, st', [])
      | (Data row, st') \<Rightarrow>
          let restoredSession = toStudySession row
          in (studySessions @ [restoredSession], st', [SessionRestored restoredSession]))"

text \<open>
  Deleting a session and then pressing \<open>Undo\<close> in the notification. The button calls the
  \<open>handleUndoDelete\<close> of the render that ran \<open>deleteSession\<close>, so the list it appends to is
  the list that render held, from before the deletion.
\<close>

definition deleteThenUndo ::
  "int \<Rightarrow> call \<Rightarrow> call \<Rightarrow> ident \<Rightarrow> StudySession list \<Rightarrow> store
     \<Rightarrow> (StudySession list \<times> store \<times> DashboardEvent list) option" where
  "deleteThenUndo tz c1 c2 i studySessions st =
     (case deleteSession c1 i studySessions st of
        (_, st1, _, Some saved) \<Rightarrow> Some (handleUndoDelete tz c2 saved studySessions st1)
      | (_, _, _, None) \<Rightarrow> None)"


section \<open>Dashboard\<close>

text \<open>
  The state of the dashboard: the upcoming sessions, the progress per subject and the
  subject whose bar is being animated. The list of recent doubts takes no part in what
  follows and is left out, as are the notifications and the timer that clears
  \<open>updatingProgress\<close> a second later.
\<close>

record DashSession =
  ds_id :: ident
  ds_subject :: string
  ds_topic :: string
  ds_date :: instant
  ds_startTime :: string
  ds_duration :: string
  ds_progress :: number
  ds_completed :: bool

record SubjectProgress =
  sp_subject :: string
  sp_progress :: int
  sp_totalSessions :: nat
  sp_completedSessions :: int

record Dashboard =
  upcomingStudySessions :: "DashSession list"
  studyProgress :: "SubjectProgress list"
  updatingProgress :: "string option"

text \<open>
  The sums and quotients of the dashboard are JavaScript numbers, IEEE 754 doubles. A
  finite double is held as the rational it denotes, and \<open>+\<close>, \<open>/\<close> and \<open>*\<close> give the exact
  result rounded to the nearest double, a tie going to the double of even mantissa.
  \<open>exponent x\<close> is the \<open>e\<close> with \<open>2 ^ e \<le> x < 2 ^ (e + 1)\<close>; the doubles of that binade are
  the multiples of \<open>2 ^ (e - 52)\<close>, and below \<open>2 ^ - 1022\<close> (the subnormal range) the
  multiples of \<open>2 ^ - 1074\<close>. A result of \<open>2 ^ 1024\<close> or more is \<open>Infinity\<close> in JavaScript and
  has no value here: it needs a stored progress of more than 300 digits, which \<open>Number\<close>
  above does not model either. The program divides by 100 and by a positive count only.
\<close>

type_synonym double = rat

definition roundHalfEven :: "rat \<Rightarrow> int" where
  "roundHalfEven x =
     (let n = \<lfloor>x\<rfloor>; r = x - of_int n
      in if r < 1 / 2 then n else if 1 / 2 < r then n + 1 else if even n then n else n + 1)"

function exponent :: "rat \<Rightarrow> int" where
  "exponent x =
     (if x \<le> 0 then 0
      else if 2 \<le> x then exponent (x / 2) + 1
      else if x < 1 then exponent (2 * x) - 1
      else 0)"
  by pat_completeness auto

termination
proof (relation "measure (\<lambda>x. if 1 \<le> x then nat \<lfloor>x\<rfloor> else nat \<lceil>1 / x\<rceil>)")
  show "wf (measure (\<lambda>x::rat. if 1 \<le> x then nat \<lfloor>x\<rfloor> else nat \<lceil>1 / x\<rceil>))"
    by simp
next
  fix x :: rat
  assume "\<not> x \<le> 0" and x: "2 \<le> x"
  then have "\<lfloor>x / 2\<rfloor> < \<lfloor>x\<rfloor>" and "0 < \<lfloor>x\<rfloor>"
    by linarith+
  with x show "(x / 2, x) \<in> measure (\<lambda>x. if 1 \<le> x then nat \<lfloor>x\<rfloor> else nat \<lceil>1 / x\<rceil>)"
    by simp
next
  fix x :: rat
  assume "\<not> x \<le> 0" and "\<not> 2 \<le> x" and x: "x < 1"
  then have pos: "0 < x" by simp
  show "(2 * x, x) \<in> measure (\<lambda>x. if 1 \<le> x then nat \<lfloor>x\<rfloor> else nat \<lceil>1 / x\<rceil>)"
  proof (cases "1 \<le> 2 * x")
    case True
    with x have "\<lfloor>2 * x\<rfloor> = 1" by linarith
    moreover from pos x have "1 < 1 / x" by simp
    then have "2 \<le> \<lceil>1 / x\<rceil>" by linarith
    ultimately show ?thesis using True x by simp
  next
    case False
    with pos have "2 < 1 / x" by (simp add: field_simps)
    moreover have "1 / (2 * x) = (1 / x) / 2" by simp
    ultimately have "\<lceil>1 / (2 * x)\<rceil> < \<lceil>1 / x\<rceil>" and "0 < \<lceil>1 / x\<rceil>"
      by linarith+
    with False x show ?thesis by simp
  qed
qed

declare exponent.simps [simp del]

definition pow2 :: "int \<Rightarrow> rat" where
  "pow2 e = (if 0 \<le> e then 2 ^ nat e else 1 / 2 ^ nat (- e))"

definition roundToDouble :: "rat \<Rightarrow> double" where
  "roundToDouble x =
     (if x = 0 then 0
      else let ulp = pow2 (max (exponent \<bar>x\<bar>) (- 1022) - 52)
           in of_int (roundHalfEven (x / ulp)) * ulp)"

definition plusDouble :: "double \<Rightarrow> double \<Rightarrow> double" where
  "plusDouble x y = roundToDouble (x + y)"

definition divideDouble :: "double \<Rightarrow> double \<Rightarrow> double" where
  "divideDouble x y = roundToDouble (x / y)"

definition timesDouble :: "double \<Rightarrow> double \<Rightarrow> double" where
  "timesDouble x y = roundToDouble (x * y)"

text \<open>The double of a whole number: the number itself up to \<open>2 ^ 53\<close>, the nearest double
  beyond.\<close>

definition toDouble :: "int \<Rightarrow> double" where
  "toDouble i = roundToDouble (of_int i)"

text \<open>\<open>Math.round\<close> gives the nearest integer, a half going upwards; on a double this is
  exact.\<close>

definition mathRound :: "double \<Rightarrow> int" where
  "mathRound x = \<lfloor>x + 1 / 2\<rfloor>"

text \<open>One turn of the loop over the sessions of a subject: a completed session adds 1, an
  incomplete one with progress above 0 adds \<open>progress / 100\<close>; \<open>completedSessions\<close> is a
  double, and so are the quotient and the sum. (\<open>NaN > 0\<close> is false, so the last case of
  the quotient is not reached.)\<close>

definition addSession :: "bool \<Rightarrow> number \<Rightarrow> double \<Rightarrow> double" where
  "addSession isCompleted sessionProgress completedSessions =
     (if isCompleted then plusDouble completedSessions 1
      else if numberGt sessionProgress 0
        then plusDouble completedSessions
               (case sessionProgress of Val p \<Rightarrow> divideDouble (toDouble p) 100 | NaN \<Rightarrow> 0)
        else completedSessions)"

text \<open>\<^verbatim>\<open>Math.round(total > 0 ? (completed / total) * 100 : 0)\<close>: the quotient is rounded to
  a double, then the product, then \<open>Math.round\<close> is taken. The number of sessions is the
  length of an array, below \<open>2 ^ 32\<close>, and is its own double.\<close>

definition percentOf :: "double \<Rightarrow> nat \<Rightarrow> int" where
  "percentOf completedSessions totalSessions =
     mathRound (if totalSessions > 0
                then timesDouble (divideDouble completedSessions (of_nat totalSessions)) 100
                else 0)"

text \<open>The state update at the end of \<open>updateSubjectProgress\<close>: the entries of the subject are
  rewritten, or a new entry is added and the three entries of highest progress are kept.
  \<open>Array.prototype.sort\<close> is stable.\<close>

definition setStudyProgress ::
  "string \<Rightarrow> int \<Rightarrow> nat \<Rightarrow> int \<Rightarrow> SubjectProgress list \<Rightarrow> SubjectProgress list" where
  "setStudyProgress subj progress totalSessions completedSessions prev =
     (case find (\<lambda>p. sp_subject p = subj) prev of
        Some existing \<Rightarrow>
          map (\<lambda>p. if sp_subject p = subj
                    then p\<lparr>sp_progress := progress, sp_totalSessions := totalSessions,
                           sp_completedSessions := completedSessions\<rparr>
                    else p) prev
      | None \<Rightarrow>
          take 3 (sort_key (\<lambda>p. - sp_progress p)
            (prev @ [\<lparr> sp_subject = subj, sp_progress = progress,
                        sp_totalSessions = totalSessions,
                        sp_completedSessions = completedSessions \<rparr>])))"

definition updateSubjectProgress ::
  "string option \<Rightarrow> call \<Rightarrow> string \<Rightarrow> store \<Rightarrow> Dashboard \<Rightarrow> Dashboard" where
  "updateSubjectProgress user c subj st dash =
     (case user of
        None \<Rightarrow> dash
      | Some u \<Rightarrow>
          (case select_study_sessions_of_subject c u subj st of
             Error e \<Rightarrow> dash
           | Data data \<Rightarrow>
               let totalSessions = length data;
                   completedSessions =
                     foldl (\<lambda>acc session.
                              addSession (decodeCompleted (sr_completed session))
                                (decodeProgress (sr_progress session)) acc) 0 data;
                   progress = percentOf completedSessions totalSessions
               in dash\<lparr>studyProgress :=
                    setStudyProgress subj progress totalSessions (mathRound completedSessions)
                      (studyProgress dash)\<rparr>))"

definition handleSessionCompleted ::
  "string option \<Rightarrow> call \<Rightarrow> ident \<times> string \<Rightarrow> store \<Rightarrow> Dashboard \<Rightarrow> Dashboard" where
  "handleSessionCompleted user c payload st dash =
     (case payload of (sessionId, subj) \<Rightarrow>
        updateSubjectProgress user c subj st
          (dash\<lparr>upcomingStudySessions :=
                   filter (\<lambda>session. ds_id session \<noteq> sessionId) (upcomingStudySessions dash),
                 updatingProgress := Some subj\<rparr>))"

text \<open>
  The part of \<open>fetchDashboardData\<close> that computes the progress per subject from all
  sessions of the user. \<open>subjectMap\<close> is the \<open>Map\<close> of the code, as the list of its
  entries in the order of insertion. The function reads the sessions and then the recent
  doubts (of which it shows the first ones); when either read fails it sets nothing.
\<close>

definition toDashSession :: "study_session_row \<Rightarrow> DashSession" where
  "toDashSession r =
     \<lparr> ds_id = sr_id r, ds_subject = sr_subject r, ds_topic = sr_topic r,
       ds_date = newDate (sr_date r), ds_startTime = orEmpty (sr_startTime r),
       ds_duration = sr_duration r, ds_progress = decodeProgress (sr_progress r),
       ds_completed = decodeCompleted (sr_completed r) \<rparr>"

definition countSession ::
  "(string \<times> nat \<times> double) list \<Rightarrow> DashSession \<Rightarrow> (string \<times> nat \<times> double) list" where
  "countSession subjectMap session =
     (let subj = ds_subject session;
          m = (if map_of subjectMap subj = None then subjectMap @ [(subj, 0, 0)] else subjectMap)
      in map (\<lambda>(k, total, completed).
                if k = subj
                then (k, total + 1, addSession (ds_completed session) (ds_progress session) completed)
                else (k, total, completed)) m)"

definition progressData :: "DashSession list \<Rightarrow> SubjectProgress list" where
  "progressData formattedSessions =
     take 3 (sort_key (\<lambda>p. - sp_progress p)
       (map (\<lambda>(subj, total, completed).
               \<lparr> sp_subject = subj, sp_progress = percentOf completed total,
                 sp_totalSessions = total, sp_completedSessions = mathRound completed \<rparr>)
          (foldl countSession [] formattedSessions)))"

definition fetchStudyProgress ::
  "string option \<Rightarrow> call \<Rightarrow> call \<Rightarrow> store \<Rightarrow> Dashboard \<Rightarrow> Dashboard" where
  "fetchStudyProgress user c cd st dash =
     (case user of
        None \<Rightarrow> dash
      | Some u \<Rightarrow>
          (case select_study_sessions_by_date c u st of
             Error e \<Rightarrow> dash
           | Data sessionsData \<Rightarrow>
               (case select_doubts cd u st of
                  Error e \<Rightarrow> dash
                | Data doubtsData \<Rightarrow>
                    dash\<lparr>studyProgress := progressData (map toDashSession sessionsData)\<rparr>)))"

subsection \<open>The aggregate in the words of the specification\<close>

text \<open>\<open>round(100 * \<Sigma>(contribution) / count)\<close>, where a completed session contributes 1 and
  an incomplete session contributes \<open>progress / 100\<close>; a session is given as the pair of
  its completion and its progress.\<close>

definition specContribution :: "bool \<times> int \<Rightarrow> rat" where
  "specContribution s = (if fst s then 1 else of_int (snd s) / 100)"

definition specAggregate :: "(bool \<times> int) list \<Rightarrow> int" where
  "specAggregate sessions =
     round (100 * sum_list (map specContribution sessions) / of_nat (length sessions))"

definition progressValue :: "number \<Rightarrow> int" where
  "progressValue x = (case x of Val i \<Rightarrow> i | NaN \<Rightarrow> 0)"

definition rowSummary :: "study_session_row \<Rightarrow> bool \<times> int" where
  "rowSummary r = (decodeCompleted (sr_completed r), progressValue (decodeProgress (sr_progress r)))"

definition sessionsOf :: "string \<Rightarrow> string \<Rightarrow> store \<Rightarrow> study_session_row list" where
  "sessionsOf u subj st =
     filter (\<lambda>r. sr_user_id r = u \<and> sr_subject r = subj) (study_sessions st)"

definition mathStore :: store where
  "mathStore =
     \<lparr> next_id = 3, clock = 10,
       study_sessions =
         [\<lparr> sr_id = ServerId 1, sr_user_id = ''u1'', sr_subject = ''Math'', sr_topic = ''A'',
            sr_date = 19853, sr_startTime = Some ''09:00'', sr_duration = ''1 hour'',
            sr_notes = None, sr_created_at = 1, sr_progress = Some ''50'',
            sr_completed = Some ''false'' \<rparr>,
          \<lparr> sr_id = ServerId 2, sr_user_id = ''u1'', sr_subject = ''Math'', sr_topic = ''B'',
            sr_date = 19854, sr_startTime = Some ''10:00'', sr_duration = ''30 minutes'',
            sr_notes = None, sr_created_at = 2, sr_progress = Some ''100'',
            sr_completed = Some ''true'' \<rparr>],
       doubts = [], doubt_messages = [], flashcard_decks = [], flashcards = [] \<rparr>"

definition mathSessions :: "StudySession list" where
  "mathSessions = map toStudySession (study_sessions mathStore)"

definition emptyDashboard :: Dashboard where
  "emptyDashboard = \<lparr> upcomingStudySessions = [], studyProgress = [], updatingProgress = None \<rparr>"

definition mathDashboard :: Dashboard where
  "mathDashboard =
     \<lparr> upcomingStudySessions =
         map toDashSession
           (filter (\<lambda>r. \<not> decodeCompleted (sr_completed r)) (study_sessions mathStore)),
       studyProgress =
         [\<lparr> sp_subject = ''Math'', sp_progress = 75, sp_totalSessions = 2,
            sp_completedSessions = 2 \<rparr>],
       updatingProgress = None \<rparr>"

definition ok :: call where
  "ok = \<lparr> failure = None, elapsed = 1 \<rparr>"

text \<open>The store after the first session of \<open>mathStore\<close> has been moved to 15 with the
  slider of the planner (steps of 5 up to 100), every call succeeding.\<close>

definition mathStore15 :: store where
  "mathStore15 =
     fst (snd (updateSessionProgress (Some ''u1'') ok (ServerId 1) (Val 15) mathSessions mathStore))"

section \<open>Flashcard decks\<close>

text \<open>
  The state of the flashcard page: the decks and the selected deck. A handler runs on the
  state its render holds and on the store and gives back both. Where the code makes one
  store call per deck or per card, the outcome of each call is given by a function of the
  deck's or the card's identifier.
\<close>

record Flashcard =
  fc_id :: ident
  fc_front :: string
  fc_back :: string
  fc_subject :: string

record FlashcardDeck =
  dk_id :: ident
  dk_name :: string
  dk_subject :: string
  dk_totalCards :: int
  dk_flashcards :: "Flashcard list"

record FlashcardView =
  decks :: "FlashcardDeck list"
  selectedDeck :: "FlashcardDeck option"

fun loadDecks :: "(ident \<Rightarrow> call) \<Rightarrow> store \<Rightarrow> deck_row list \<Rightarrow> FlashcardDeck list option" where
  "loadDecks cc st [] = Some []"
| "loadDecks cc st (deck # rest) =
     (case select_flashcards (cc (kr_id deck)) (kr_id deck) st of
        Error e \<Rightarrow> None
      | Data flashcardsData \<Rightarrow>
          (case loadDecks cc st rest of
             None \<Rightarrow> None
           | Some others \<Rightarrow>
               Some (\<lparr> dk_id = kr_id deck, dk_name = kr_name deck, dk_subject = kr_subject deck,
                        dk_totalCards = int (length flashcardsData),
                        dk_flashcards =
                          map (\<lambda>card. \<lparr> fc_id = cr_id card, fc_front = cr_front card,
                                         fc_back = cr_back card, fc_subject = kr_subject deck \<rparr>)
                            flashcardsData \<rparr> # others)))"

definition fetchDecks ::
  "string option \<Rightarrow> call \<Rightarrow> (ident \<Rightarrow> call) \<Rightarrow> FlashcardView \<Rightarrow> store \<Rightarrow> FlashcardView" where
  "fetchDecks user c cc view st =
     (case user of
        None \<Rightarrow> view
      | Some u \<Rightarrow>
          (case select_flashcard_decks c u st of
             Error e \<Rightarrow> view
           | Data decksData \<Rightarrow>
               (case loadDecks cc st decksData of
                  None \<Rightarrow> view
                | Some decksWithCards \<Rightarrow>
                    view\<lparr>decks := decksWithCards,
                         selectedDeck :=
                           (if decksWithCards \<noteq> [] \<and> selectedDeck view = None
                            then Some (hd decksWithCards) else selectedDeck view)\<rparr>)))"

definition handleCreateDeck ::
  "string option \<Rightarrow> call \<Rightarrow> string \<Rightarrow> string \<Rightarrow> FlashcardView \<Rightarrow> store
     \<Rightarrow> FlashcardView \<times> store" where
  "handleCreateDeck user c name subj view st =
     (case user of
        None \<Rightarrow> (view, st)
      | Some u \<Rightarrow>
          (case insert_flashcard_deck c name subj u st of
             (Error e, st') \<Rightarrow> (view, st')
           | (Data row, st') \<Rightarrow>
               let newDeck = \<lparr> dk_id = kr_id row, dk_name = kr_name row,
                               dk_subject = kr_subject row, dk_totalCards = 0,
                               dk_flashcards = [] \<rparr>
               in (view\<lparr>decks := newDeck # decks view, selectedDeck := Some newDeck\<rparr>, st')))"

fun updateCards :: "(ident \<Rightarrow> call) \<Rightarrow> Flashcard list \<Rightarrow> store \<Rightarrow> unit response \<times> store" where
  "updateCards cu [] st = (Data (), st)"
| "updateCards cu (flashcard # rest) st =
     (case update_flashcard (cu (fc_id flashcard)) (fc_id flashcard)
             (fc_front flashcard) (fc_back flashcard) st of
        (Error e, st') \<Rightarrow> (Error e, st')
      | (Data _, st') \<Rightarrow> updateCards cu rest st')"

definition handleUpdateDeck ::
  "call \<Rightarrow> call \<Rightarrow> (ident \<Rightarrow> call) \<Rightarrow> FlashcardDeck \<Rightarrow> FlashcardView \<Rightarrow> store
     \<Rightarrow> FlashcardView \<times> store" where
  "handleUpdateDeck ci cd cu updatedDeck view st =
     (case find (\<lambda>deck. dk_id deck = dk_id updatedDeck) (decks view) of
        None \<Rightarrow> (view, st)
      | Some originalDeck \<Rightarrow>
          let newCards =
                filter (\<lambda>card. \<not> list_ex (\<lambda>origCard. fc_id origCard = fc_id card)
                                    (dk_flashcards originalDeck))
                  (dk_flashcards updatedDeck);
              deletedCardIds =
                map fc_id
                  (filter (\<lambda>origCard. \<not> list_ex (\<lambda>card. fc_id card = fc_id origCard)
                                           (dk_flashcards updatedDeck))
                     (dk_flashcards originalDeck));
              updatedCards =
                filter (\<lambda>card. list_ex (\<lambda>origCard. fc_id origCard = fc_id card
                                           \<and> (fc_front origCard \<noteq> fc_front card
                                              \<or> fc_back origCard \<noteq> fc_back card))
                                  (dk_flashcards originalDeck))
                  (dk_flashcards updatedDeck)
          in (case (if newCards \<noteq> []
                    then insert_flashcards ci
                           (map (\<lambda>card. \<lparr> nc_deck_id = dk_id updatedDeck,
                                          nc_front = fc_front card, nc_back = fc_back card \<rparr>)
                              newCards) st
                    else (Data [], st)) of
                (Error e, st1) \<Rightarrow> (view, st1)
              | (Data _, st1) \<Rightarrow>
                  (case (if deletedCardIds \<noteq> []
                         then delete_flashcards cd deletedCardIds st1
                         else (Data (), st1)) of
                     (Error e, st2) \<Rightarrow> (view, st2)
                   | (Data _, st2) \<Rightarrow>
                       (case updateCards cu updatedCards st2 of
                          (Error e, st3) \<Rightarrow> (view, st3)
                        | (Data _, st3) \<Rightarrow>
                            (view\<lparr>decks :=
                                    map (\<lambda>deck. if dk_id deck = dk_id updatedDeck
                                                then updatedDeck else deck) (decks view),
                                  selectedDeck := Some updatedDeck\<rparr>, st3)))))"

definition handleAddGeneratedFlashcards ::
  "string option \<Rightarrow> call \<Rightarrow> call \<Rightarrow> call \<Rightarrow> (ident \<Rightarrow> call) \<Rightarrow> (string \<times> string) list
     \<Rightarrow> FlashcardView \<Rightarrow> store \<Rightarrow> FlashcardView \<times> store" where
  "handleAddGeneratedFlashcards user c ci cd cu generatedFlashcards view st =
     (case selectedDeck view of
        None \<Rightarrow> (view, st)
      | Some sel \<Rightarrow>
          if generatedFlashcards = [] \<or> user = None then (view, st)
          else
            (case insert_flashcards c
                    (map (\<lambda>card. \<lparr> nc_deck_id = dk_id sel, nc_front = fst card,
                                   nc_back = snd card \<rparr>) generatedFlashcards) st of
               (Error e, st1) \<Rightarrow> (view, st1)
             | (Data data, st1) \<Rightarrow>
                 let newFlashcards =
                       map (\<lambda>card. \<lparr> fc_id = cr_id card, fc_front = cr_front card,
                                      fc_back = cr_back card, fc_subject = dk_subject sel \<rparr>) data;
                     updatedDeck =
                       sel\<lparr>dk_totalCards := dk_totalCards sel + int (length newFlashcards),
                           dk_flashcards := dk_flashcards sel @ newFlashcards\<rparr>
                 in handleUpdateDeck ci cd cu updatedDeck view st1))"

text \<open>The handlers of the deck's detail panel, whose \<open>deck\<close> is the selected deck and whose
  \<open>onUpdateDeck\<close> is \<open>handleUpdateDeck\<close>. \<open>now\<close> is the reading of \<open>Date.now()\<close>.\<close>

definition handleCreateFlashcard ::
  "nat \<Rightarrow> call \<Rightarrow> call \<Rightarrow> (ident \<Rightarrow> call) \<Rightarrow> string \<Rightarrow> string \<Rightarrow> FlashcardView \<Rightarrow> store
     \<Rightarrow> FlashcardView \<times> store" where
  "handleCreateFlashcard now ci cd cu newCardFront newCardBack view st =
     (case selectedDeck view of
        None \<Rightarrow> (view, st)
      | Some deck \<Rightarrow>
          if trim newCardFront = [] \<or> trim newCardBack = [] then (view, st)
          else
            let newCard = \<lparr> fc_id = ClientId now, fc_front = newCardFront,
                            fc_back = newCardBack, fc_subject = dk_subject deck \<rparr>;
                updatedDeck = deck\<lparr>dk_totalCards := dk_totalCards deck + 1,
                                   dk_flashcards := dk_flashcards deck @ [newCard]\<rparr>
            in handleUpdateDeck ci cd cu updatedDeck view st)"

definition handleDeleteFlashcard ::
  "call \<Rightarrow> call \<Rightarrow> (ident \<Rightarrow> call) \<Rightarrow> ident \<Rightarrow> FlashcardView \<Rightarrow> store
     \<Rightarrow> FlashcardView \<times> store" where
  "handleDeleteFlashcard ci cd cu cardId view st =
     (case selectedDeck view of
        None \<Rightarrow> (view, st)
      | Some deck \<Rightarrow>
          let updatedFlashcards = filter (\<lambda>card. fc_id card \<noteq> cardId) (dk_flashcards deck);
              updatedDeck = deck\<lparr>dk_totalCards := int (length updatedFlashcards),
                                 dk_flashcards := updatedFlashcards\<rparr>
          in handleUpdateDeck ci cd cu updatedDeck view st)"

definition handleSaveEdit ::
  "call \<Rightarrow> call \<Rightarrow> (ident \<Rightarrow> call) \<Rightarrow> ident option \<Rightarrow> string \<Rightarrow> string \<Rightarrow> FlashcardView
     \<Rightarrow> store \<Rightarrow> FlashcardView \<times> store" where
  "handleSaveEdit ci cd cu editCardId editCardFront editCardBack view st =
     (case selectedDeck view of
        None \<Rightarrow> (view, st)
      | Some deck \<Rightarrow>
          (case editCardId of
             None \<Rightarrow> (view, st)
           | Some i \<Rightarrow>
               if trim editCardFront = [] \<or> trim editCardBack = [] then (view, st)
               else
                 let updatedFlashcards =
                       map (\<lambda>card. if fc_id card = i
                                    then card\<lparr>fc_front := editCardFront, fc_back := editCardBack\<rparr>
                                    else card) (dk_flashcards deck);
                     updatedDeck = deck\<lparr>dk_flashcards := updatedFlashcards\<rparr>
                 in handleUpdateDeck ci cd cu updatedDeck view st))"

text \<open>The invariant of a deck, and of a state of the page.\<close>

definition countsAgree :: "FlashcardDeck \<Rightarrow> bool" where
  "countsAgree deck = (dk_totalCards deck = int (length (dk_flashcards deck)))"

definition viewAgrees :: "FlashcardView \<Rightarrow> bool" where
  "viewAgrees view =
     (list_all countsAgree (decks view)
      \<and> (case selectedDeck view of None \<Rightarrow> True | Some deck \<Rightarrow> countsAgree deck))"

definition emptyStore :: store where
  "emptyStore = \<lparr> next_id = 1, clock = 0, study_sessions = [], doubts = [],
                  doubt_messages = [], flashcard_decks = [], flashcards = [] \<rparr>"

definition emptyView :: FlashcardView where
  "emptyView = \<lparr> decks = [], selectedDeck = None \<rparr>"

text \<open>A round trip on an empty store: a deck is created, two generated cards are added
  to it, and the page is loaded anew from the store, every call succeeding.\<close>

definition cellsCreated :: "FlashcardView \<times> store" where
  "cellsCreated = handleCreateDeck (Some ''u1'') ok ''Cells'' ''Biology'' emptyView emptyStore"

definition cellsAdded :: "FlashcardView \<times> store" where
  "cellsAdded =
     handleAddGeneratedFlashcards (Some ''u1'') ok ok ok (\<lambda>i. ok)
       [(''q1'', ''a1''), (''q2'', ''a2'')] (fst cellsCreated) (snd cellsCreated)"

definition cellsReloaded :: FlashcardView where
  "cellsReloaded = fetchDecks (Some ''u1'') ok (\<lambda>i. ok) emptyView (snd cellsAdded)"

section \<open>Doubt solver\<close>

text \<open>
  The state of the doubt solver. A handler reads the state of the render it was made in:
  where the code sets a state variable and later reads it again, it still reads the value
  from before. Each handler below therefore computes every new value from the state it is
  given, and the state it gives back holds, for each variable, the last value set.
  The answering function is called once per question; it answers or fails.
\<close>

record Message =
  m_id :: ident
  m_content :: string
  m_sender :: string
  m_timestamp :: nat

record Doubt =
  d_id :: ident
  d_question :: string
  d_timestamp :: nat
  d_solved :: bool
  d_subject :: string
  d_messages :: "Message list"

record DoubtView =
  view_doubts :: "Doubt list"
  selectedDoubt :: "Doubt option"
  newMessage :: string
  newQuestion :: string
  isGenerating :: bool

datatype ai_reply = Answer string | Failed string

definition toMessage :: "message_row \<Rightarrow> Message" where
  "toMessage r = \<lparr> m_id = mr_id r, m_content = mr_content r, m_sender = mr_sender r,
                   m_timestamp = mr_timestamp r \<rparr>"

definition replaceDoubt :: "Doubt \<Rightarrow> Doubt list \<Rightarrow> Doubt list" where
  "replaceDoubt updatedDoubt ds = map (\<lambda>d. if d_id d = d_id updatedDoubt then updatedDoubt else d) ds"

definition errorMessage :: string where
  "errorMessage = ''I'' @ [CHR 0x27] @ ''m sorry, I encountered an error while processing your question. Please try again or rephrase your question.''"

text \<open>
  The \<open>catch\<close> block of \<open>handleSubmitQuestion\<close> and of \<open>handleSendMessage\<close>, followed by their
  \<open>finally\<close>. \<open>view\<close> is the state the handler was started on, whose \<open>selectedDoubt\<close> and
  list of doubts the block reads; \<open>pending\<close> holds what the handler has set so far. If the
  insert of the apology fails, the block throws and nothing more is set.
\<close>

definition apologise ::
  "call \<Rightarrow> DoubtView \<Rightarrow> DoubtView \<Rightarrow> store \<Rightarrow> DoubtView \<times> store \<times> DashboardEvent list" where
  "apologise c view pending st =
     (case selectedDoubt view of
        None \<Rightarrow> (pending\<lparr>isGenerating := False\<rparr>, st, [])
      | Some sel \<Rightarrow>
          (case insert_doubt_message c (d_id sel) errorMessage ''ai'' st of
             (Error e, st') \<Rightarrow> (pending\<lparr>isGenerating := False\<rparr>, st', [])
           | (Data errorMessageData, st') \<Rightarrow>
               let updatedDoubt =
                     sel\<lparr>d_messages := d_messages sel @ [toMessage errorMessageData]\<rparr>
               in (pending\<lparr>view_doubts := replaceDoubt updatedDoubt (view_doubts view),
                           selectedDoubt := Some updatedDoubt,
                           isGenerating := False\<rparr>, st', [])))"

definition handleSubmitQuestion ::
  "string option \<Rightarrow> call \<Rightarrow> call \<Rightarrow> ai_reply \<Rightarrow> call \<Rightarrow> call \<Rightarrow> DoubtView \<Rightarrow> store
     \<Rightarrow> DoubtView \<times> store \<times> DashboardEvent list" where
  "handleSubmitQuestion user c1 c2 ai c3 c4 view st =
     (case user of
        None \<Rightarrow> (view, st, [])
      | Some u \<Rightarrow>
          if trim (newQuestion view) = [] then (view, st, [])
          else
            (case insert_doubt c1 (newQuestion view) u ''General'' st of
               (Error e, st1) \<Rightarrow> apologise c4 view view st1
             | (Data doubtData, st1) \<Rightarrow>
                 (case insert_doubt_message c2 (dr_id doubtData) (newQuestion view) ''user'' st1 of
                    (Error e, st2) \<Rightarrow> apologise c4 view view st2
                  | (Data messageData, st2) \<Rightarrow>
                      let newDoubt =
                            \<lparr> d_id = dr_id doubtData, d_question = dr_question doubtData,
                              d_timestamp = dr_timestamp doubtData, d_solved = dr_solved doubtData,
                              d_subject = dr_subject doubtData,
                              d_messages = [toMessage messageData] \<rparr>;
                          asked = view\<lparr>view_doubts := newDoubt # view_doubts view,
                                       selectedDoubt := Some newDoubt,
                                       newQuestion := [], isGenerating := True\<rparr>
                      in (case ai of
                            Failed e \<Rightarrow> apologise c4 view asked st2
                          | Answer answer \<Rightarrow>
                              (case insert_doubt_message c3 (dr_id doubtData) answer ''ai'' st2 of
                                 (Error e, st3) \<Rightarrow> apologise c4 view asked st3
                               | (Data aiMessageData, st3) \<Rightarrow>
                                   let updatedDoubt =
                                         newDoubt\<lparr>d_messages :=
                                           d_messages newDoubt @ [toMessage aiMessageData]\<rparr>
                                   in (asked\<lparr>view_doubts :=
                                               replaceDoubt updatedDoubt (view_doubts view),
                                             selectedDoubt := Some updatedDoubt,
                                             isGenerating := False\<rparr>,
                                       st3,
                                       [DoubtCreated (d_id newDoubt) (d_question newDoubt)]))))))"

definition handleSendMessage ::
  "string option \<Rightarrow> call \<Rightarrow> ai_reply \<Rightarrow> call \<Rightarrow> call \<Rightarrow> DoubtView \<Rightarrow> store
     \<Rightarrow> DoubtView \<times> store \<times> DashboardEvent list" where
  "handleSendMessage user c1 ai c2 c3 view st =
     (case selectedDoubt view of
        None \<Rightarrow> (view, st, [])
      | Some sel \<Rightarrow>
          if trim (newMessage view) = [] \<or> user = None then (view, st, [])
          else
            (case insert_doubt_message c1 (d_id sel) (newMessage view) ''user'' st of
               (Error e, st1) \<Rightarrow> apologise c3 view view st1
             | (Data messageData, st1) \<Rightarrow>
                 let updatedDoubt = sel\<lparr>d_messages := d_messages sel @ [toMessage messageData]\<rparr>;
                     sent = view\<lparr>view_doubts := replaceDoubt updatedDoubt (view_doubts view),
                                 selectedDoubt := Some updatedDoubt,
                                 newMessage := [], isGenerating := True\<rparr>
                 in (case ai of
                       Failed e \<Rightarrow> apologise c3 view sent st1
                     | Answer answer \<Rightarrow>
                         (case insert_doubt_message c2 (d_id sel) answer ''ai'' st1 of
                            (Error e, st2) \<Rightarrow> apologise c3 view sent st2
                          | (Data aiMessageData, st2) \<Rightarrow>
                              let finalDoubt =
                                    updatedDoubt\<lparr>d_messages :=
                                      d_messages updatedDoubt @ [toMessage aiMessageData]\<rparr>
                              in (sent\<lparr>view_doubts := replaceDoubt finalDoubt (view_doubts view),
                                       selectedDoubt := Some finalDoubt,
                                       isGenerating := False\<rparr>, st2, [])))))"

definition markAsSolved ::
  "call \<Rightarrow> ident \<Rightarrow> DoubtView \<Rightarrow> store \<Rightarrow> DoubtView \<times> store \<times> DashboardEvent list" where
  "markAsSolved c i view st =
     (case update_doubt_solved c i st of
        (Error e, st') \<Rightarrow> (view, st', [])
      | (Data _, st') \<Rightarrow>
          (view\<lparr>view_doubts :=
                  map (\<lambda>doubt. if d_id doubt = i then doubt\<lparr>d_solved := True\<rparr> else doubt)
                    (view_doubts view),
                selectedDoubt :=
                  (case selectedDoubt view of
                     None \<Rightarrow> None
                   | Some sel \<Rightarrow> if d_id sel = i then Some (sel\<lparr>d_solved := True\<rparr>) else Some sel)\<rparr>,
           st', [DoubtUpdated i True]))"

fun loadDoubts :: "(ident \<Rightarrow> call) \<Rightarrow> store \<Rightarrow> doubt_row list \<Rightarrow> Doubt list option" where
  "loadDoubts cm st [] = Some []"
| "loadDoubts cm st (doubt # rest) =
     (case select_doubt_messages (cm (dr_id doubt)) (dr_id doubt) st of
        Error e \<Rightarrow> None
      | Data messagesData \<Rightarrow>
          (case loadDoubts cm st rest of
             None \<Rightarrow> None
           | Some others \<Rightarrow>
               Some (\<lparr> d_id = dr_id doubt, d_question = dr_question doubt,
                        d_timestamp = dr_timestamp doubt, d_solved = dr_solved doubt,
                        d_subject = dr_subject doubt,
                        d_messages = map toMessage messagesData \<rparr> # others)))"

definition fetchDoubts ::
  "string option \<Rightarrow> call \<Rightarrow> (ident \<Rightarrow> call) \<Rightarrow> DoubtView \<Rightarrow> store \<Rightarrow> DoubtView" where
  "fetchDoubts user c cm view st =
     (case user of
        None \<Rightarrow> view
      | Some u \<Rightarrow>
          (case select_doubts c u st of
             Error e \<Rightarrow> view
           | Data doubtsData \<Rightarrow>
               (case loadDoubts cm st doubtsData of
                  None \<Rightarrow> view
                | Some doubtsWithMessages \<Rightarrow>
                    view\<lparr>view_doubts := doubtsWithMessages,
                         selectedDoubt :=
                           (if doubtsWithMessages \<noteq> [] \<and> selectedDoubt view = None
                            then Some (hd doubtsWithMessages) else selectedDoubt view)\<rparr>)))"

definition emptyDoubtView :: DoubtView where
  "emptyDoubtView = \<lparr> view_doubts = [], selectedDoubt = None, newMessage = [],
                      newQuestion = [], isGenerating = False \<rparr>"

definition noService :: call where
  "noService = \<lparr> failure = Some ''Service unavailable'', elapsed = 1 \<rparr>"

text \<open>The state of the doubt solver after a first question was asked and answered.\<close>

definition firstQuestion :: "DoubtView \<times> store \<times> DashboardEvent list" where
  "firstQuestion =
     handleSubmitQuestion (Some ''u1'') ok ok (Answer ''Rayleigh scattering'') ok ok
       (emptyDoubtView\<lparr>newQuestion := ''Why is the sky blue?''\<rparr>) emptyStore"

text \<open>
  A thread is in order up to a time when its time stamps do not decrease and none is
  later than that time; a state is in order with a store when every thread it holds is in
  order up to the clock of the store and no stored message is stamped later than it.
\<close>

definition inOrder :: "nat \<Rightarrow> Doubt \<Rightarrow> bool" where
  "inOrder t d =
     (sorted (map m_timestamp (d_messages d))
      \<and> list_all (\<lambda>m. m_timestamp m \<le> t) (d_messages d))"

definition viewOrdered :: "nat \<Rightarrow> DoubtView \<Rightarrow> bool" where
  "viewOrdered t view =
     (list_all (inOrder t) (view_doubts view)
      \<and> (case selectedDoubt view of None \<Rightarrow> True | Some d \<Rightarrow> inOrder t d))"

definition storeTimely :: "store \<Rightarrow> bool" where
  "storeTimely st = list_all (\<lambda>r. mr_timestamp r \<le> clock st) (doubt_messages st)"

definition threadsOrdered :: "DoubtView \<Rightarrow> store \<Rightarrow> bool" where
  "threadsOrdered view st = (viewOrdered (clock st) view \<and> storeTimely st)"

section \<open>JSON values\<close>

text \<open>
  The values \<open>JSON.parse\<close> returns. An object is the list of its members in the order of
  the text; a number keeps its literal.
\<close>

datatype json =
    JNull
  | JBool bool
  | JNumber string
  | JString string
  | JArray "json list"
  | JObject "(string \<times> json) list"

text \<open>Whether a value counts as true in a condition. A number is false when it is zero,
  that is, when its literal has no digit other than 0 before the exponent.\<close>

definition numberNonZero :: "string \<Rightarrow> bool" where
  "numberNonZero lit =
     list_ex (\<lambda>c. c \<in> set ''123456789'') (takeWhile (\<lambda>c. c \<noteq> CHR ''e'' \<and> c \<noteq> CHR ''E'') lit)"

fun truthy :: "json \<Rightarrow> bool" where
  "truthy JNull = False"
| "truthy (JBool b) = b"
| "truthy (JNumber lit) = numberNonZero lit"
| "truthy (JString s) = (s \<noteq> [])"
| "truthy (JArray xs) = True"
| "truthy (JObject kvs) = True"

text \<open>The member \<open>key\<close> of a value, \<open>None\<close> for \<open>undefined\<close>: of two members of an object
  with the same name the later one counts; a number, a string, a boolean and an array
  have no member called \<open>front\<close> or \<open>back\<close>.\<close>

fun member :: "string \<Rightarrow> json \<Rightarrow> json option" where
  "member key (JObject kvs) = map_of (rev kvs) key"
| "member key v = None"

subsection \<open>A reader for JSON text\<close>

text \<open>
  \<open>JSON.parse\<close> belongs to the platform. The handler below takes the reader as a
  parameter, and what is proved of it holds for every reader. \<open>JSON_parse\<close> is a reader
  for the grammar of JSON, used to run the handler on given texts: the text is cut into
  tokens by a machine that reads one character at a time, and the tokens are read by a
  machine with a stack of the arrays and objects that are open. An escaped code unit
  above 255 is outside the strings of this model and is kept as its low byte.
\<close>

datatype token =
    LBracket | RBracket | LBrace | RBrace | Comma | Colon
  | TString string | TNumber string | TTrue | TFalse | TNull

datatype lex_state =
    Idle
  | InString string
  | InEscape string
  | InUnicode string string
  | InNumber string
  | InLiteral string token

definition isHexDigit :: "char \<Rightarrow> bool" where
  "isHexDigit c = (c \<in> set ''0123456789abcdefABCDEF'')"

definition hexValue :: "char \<Rightarrow> nat" where
  "hexValue c =
     (if isDigit c then of_char c - 48
      else if c \<in> set ''abcdef'' then of_char c - 87
      else of_char c - 55)"

definition isNumberChar :: "char \<Rightarrow> bool" where
  "isNumberChar c = (c \<in> set ''0123456789+-.eE'')"

text \<open>The grammar of a number:
  \<^verbatim>\<open>-? (0 | [1-9][0-9]*) (\.[0-9]+)? ([eE][+-]?[0-9]+)?\<close>\<close>

definition validExponent :: "string \<Rightarrow> bool" where
  "validExponent r =
     (case r of
        [] \<Rightarrow> True
      | c # r1 \<Rightarrow>
          (c = CHR ''e'' \<or> c = CHR ''E'')
          \<and> allDigits (case r1 of
                         [] \<Rightarrow> []
                       | s # r2 \<Rightarrow> if s = CHR ''+'' \<or> s = CHR ''-'' then r2 else r1))"

definition validFraction :: "string \<Rightarrow> bool" where
  "validFraction r =
     (case r of
        [] \<Rightarrow> True
      | c # r1 \<Rightarrow>
          if c = CHR ''.''
          then takeWhile isDigit r1 \<noteq> [] \<and> validExponent (dropWhile isDigit r1)
          else validExponent r)"

definition validNumber :: "string \<Rightarrow> bool" where
  "validNumber lit =
     (let s = (case lit of [] \<Rightarrow> [] | c # r \<Rightarrow> if c = CHR ''-'' then r else lit);
          whole = takeWhile isDigit s
      in whole \<noteq> [] \<and> (whole = ''0'' \<or> hd whole \<noteq> CHR ''0'')
         \<and> validFraction (dropWhile isDigit s))"

text \<open>What one character does to the machine that has no token open.\<close>

definition idleStep :: "char \<Rightarrow> (lex_state \<times> token list) option" where
  "idleStep c =
     (if c \<in> set [CHR '' '', CHR 0x09, CHR 0x0A, CHR 0x0D] then Some (Idle, [])
      else if c = CHR ''['' then Some (Idle, [LBracket])
      else if c = CHR '']'' then Some (Idle, [RBracket])
      else if c = CHR ''{'' then Some (Idle, [LBrace])
      else if c = CHR ''}'' then Some (Idle, [RBrace])
      else if c = CHR '','' then Some (Idle, [Comma])
      else if c = CHR '':'' then Some (Idle, [Colon])
      else if c = CHR 0x22 then Some (InString [], [])
      else if c = CHR ''-'' \<or> isDigit c then Some (InNumber [c], [])
      else if c = CHR ''t'' then Some (InLiteral ''rue'' TTrue, [])
      else if c = CHR ''f'' then Some (InLiteral ''alse'' TFalse, [])
      else if c = CHR ''n'' then Some (InLiteral ''ull'' TNull, [])
      else None)"

definition escapeChar :: "char \<Rightarrow> char option" where
  "escapeChar c =
     (if c = CHR 0x22 \<or> c = CHR 0x5C \<or> c = CHR ''/'' then Some c
      else if c = CHR ''b'' then Some (CHR 0x08)
      else if c = CHR ''f'' then Some (CHR 0x0C)
      else if c = CHR ''n'' then Some (CHR 0x0A)
      else if c = CHR ''r'' then Some (CHR 0x0D)
      else if c = CHR ''t'' then Some (CHR 0x09)
      else None)"

text \<open>The strings and numbers being read are kept reversed.\<close>

fun lexStep :: "lex_state \<Rightarrow> char \<Rightarrow> (lex_state \<times> token list) option" where
  "lexStep Idle c = idleStep c"
| "lexStep (InString acc) c =
     (if c = CHR 0x22 then Some (Idle, [TString (rev acc)])
      else if c = CHR 0x5C then Some (InEscape acc, [])
      else if (of_char c :: nat) < 32 then None
      else Some (InString (c # acc), []))"
| "lexStep (InEscape acc) c =
     (if c = CHR ''u'' then Some (InUnicode acc [], [])
      else (case escapeChar c of
              Some e \<Rightarrow> Some (InString (e # acc), [])
            | None \<Rightarrow> None))"
| "lexStep (InUnicode acc hex) c =
     (if \<not> isHexDigit c then None
      else if length hex = 3
        then Some (InString (char_of (foldl (\<lambda>n h. 16 * n + hexValue h) 0 (rev (c # hex))) # acc), [])
        else Some (InUnicode acc (c # hex), []))"
| "lexStep (InNumber acc) c =
     (if isNumberChar c then Some (InNumber (c # acc), [])
      else if validNumber (rev acc)
        then (case idleStep c of
                Some (st, toks) \<Rightarrow> Some (st, TNumber (rev acc) # toks)
              | None \<Rightarrow> None)
        else None)"
| "lexStep (InLiteral rest tok) c =
     (case rest of
        [] \<Rightarrow> None
      | r # rs \<Rightarrow>
          if c \<noteq> r then None
          else if rs = [] then Some (Idle, [tok])
          else Some (InLiteral rs tok, []))"

fun lexJson :: "lex_state \<Rightarrow> string \<Rightarrow> token list option" where
  "lexJson st [] =
     (case st of
        Idle \<Rightarrow> Some []
      | InNumber acc \<Rightarrow> if validNumber (rev acc) then Some [TNumber (rev acc)] else None
      | _ \<Rightarrow> None)"
| "lexJson st (c # cs) =
     (case lexStep st c of
        None \<Rightarrow> None
      | Some (st', toks) \<Rightarrow>
          (case lexJson st' cs of
             None \<Rightarrow> None
           | Some others \<Rightarrow> Some (toks @ others)))"

datatype frame = ArrayFrame "json list" | ObjectFrame "(string \<times> json) list" "string option"

datatype expect = AValue | AValueOrEnd | ACommaOrEnd | AKey | AKeyOrEnd | AColon

datatype parse_state = Reading expect "frame list" | Finished json

text \<open>A value is complete: it is the result, or the next element of the open array, or the
  value of the pending key of the open object.\<close>

fun deliver :: "json \<Rightarrow> frame list \<Rightarrow> parse_state option" where
  "deliver v [] = Some (Finished v)"
| "deliver v (ArrayFrame xs # stack) = Some (Reading ACommaOrEnd (ArrayFrame (v # xs) # stack))"
| "deliver v (ObjectFrame kvs (Some k) # stack) =
     Some (Reading ACommaOrEnd (ObjectFrame ((k, v) # kvs) None # stack))"
| "deliver v (ObjectFrame kvs None # stack) = None"

fun scalar :: "token \<Rightarrow> json option" where
  "scalar (TString s) = Some (JString s)"
| "scalar (TNumber n) = Some (JNumber n)"
| "scalar TTrue = Some (JBool True)"
| "scalar TFalse = Some (JBool False)"
| "scalar TNull = Some JNull"
| "scalar t = None"

definition startValue :: "token \<Rightarrow> frame list \<Rightarrow> parse_state option" where
  "startValue t stack =
     (if t = LBracket then Some (Reading AValueOrEnd (ArrayFrame [] # stack))
      else if t = LBrace then Some (Reading AKeyOrEnd (ObjectFrame [] None # stack))
      else (case scalar t of Some v \<Rightarrow> deliver v stack | None \<Rightarrow> None))"

definition closeArray :: "frame list \<Rightarrow> parse_state option" where
  "closeArray stack =
     (case stack of
        ArrayFrame xs # rest \<Rightarrow> deliver (JArray (rev xs)) rest
      | _ \<Rightarrow> None)"

definition closeObject :: "frame list \<Rightarrow> parse_state option" where
  "closeObject stack =
     (case stack of
        ObjectFrame kvs None # rest \<Rightarrow> deliver (JObject (rev kvs)) rest
      | _ \<Rightarrow> None)"

definition readKey :: "token \<Rightarrow> frame list \<Rightarrow> parse_state option" where
  "readKey t stack =
     (case (t, stack) of
        (TString k, ObjectFrame kvs None # rest) \<Rightarrow>
          Some (Reading AColon (ObjectFrame kvs (Some k) # rest))
      | _ \<Rightarrow> None)"

fun parseStep :: "parse_state \<Rightarrow> token \<Rightarrow> parse_state option" where
  "parseStep (Finished v) t = None"
| "parseStep (Reading AValue stack) t = startValue t stack"
| "parseStep (Reading AValueOrEnd stack) t =
     (if t = RBracket then closeArray stack else startValue t stack)"
| "parseStep (Reading ACommaOrEnd stack) t =
     (if t = RBracket then closeArray stack
      else if t = RBrace then closeObject stack
      else if t = Comma
        then (case stack of
                ArrayFrame xs # rest \<Rightarrow> Some (Reading AValue stack)
              | ObjectFrame kvs k # rest \<Rightarrow> Some (Reading AKey stack)
              | [] \<Rightarrow> None)
        else None)"
| "parseStep (Reading AKey stack) t = readKey t stack"
| "parseStep (Reading AKeyOrEnd stack) t =
     (if t = RBrace then closeObject stack else readKey t stack)"
| "parseStep (Reading AColon stack) t =
     (if t = Colon then Some (Reading AValue stack) else None)"

fun parseTokens :: "parse_state \<Rightarrow> token list \<Rightarrow> json option" where
  "parseTokens st [] = (case st of Finished v \<Rightarrow> Some v | Reading e stack \<Rightarrow> None)"
| "parseTokens st (t # ts) =
     (case parseStep st t of
        None \<Rightarrow> None
      | Some st' \<Rightarrow> parseTokens st' ts)"

definition JSON_parse :: "string \<Rightarrow> json option" where
  "JSON_parse s =
     (case lexJson Idle s of
        None \<Rightarrow> None
      | Some toks \<Rightarrow> parseTokens (Reading AValue []) toks)"

section \<open>The flashcard generation function\<close>

text \<open>
  The part of the handler that turns the text the model generated into the reply (the
  checks of the request and of the upstream reply come before it). \<open>parse\<close> is
  \<open>JSON.parse\<close>, \<open>None\<close> when it throws.
\<close>

datatype http_reply = Reply200 "json list" | ReplyError nat string

text \<open>\<^verbatim>\<open>generatedText.match(/\[[\s\S]*\]/)\<close>: from the first opening bracket to the last
  closing bracket after it.\<close>

definition bracketMatch :: "string \<Rightarrow> string option" where
  "bracketMatch s =
     (case dropWhile (\<lambda>c. c \<noteq> CHR ''['') s of
        [] \<Rightarrow> None
      | b # body \<Rightarrow>
          if CHR '']'' \<in> set body
          then Some (b # rev (dropWhile (\<lambda>c. c \<noteq> CHR '']'') (rev body)))
          else None)"

definition jsonString :: "string \<Rightarrow> string" where
  "jsonString generatedText =
     (case bracketMatch generatedText of Some m \<Rightarrow> m | None \<Rightarrow> generatedText)"

text \<open>\<^verbatim>\<open>card.front && card.back\<close>; on \<open>null\<close> the access throws, which ends in the same
  \<open>catch\<close> as a card that fails the test.\<close>

definition cardOk :: "json \<Rightarrow> bool" where
  "cardOk c =
     (case member ''front'' c of
        None \<Rightarrow> False
      | Some f \<Rightarrow>
          truthy f \<and> (case member ''back'' c of None \<Rightarrow> False | Some b \<Rightarrow> truthy b))"

text \<open>The \<open>try\<close> block: the cards it returns, \<open>None\<close> when it throws.\<close>

definition structured :: "(string \<Rightarrow> json option) \<Rightarrow> string \<Rightarrow> json list option" where
  "structured parse text =
     (case parse text of
        Some (JArray cards) \<Rightarrow> if list_all cardOk cards then Some cards else None
      | _ \<Rightarrow> None)"

text \<open>
  \<open>String.prototype.split\<close> with a pattern that matches at least one character:
  \<open>matchAt\<close> gives the length of the match that starts at the head of the text, if there
  is one.
\<close>

function splitBy :: "(string \<Rightarrow> nat option) \<Rightarrow> string \<Rightarrow> string \<Rightarrow> string list" where
  "splitBy matchAt piece [] = [rev piece]"
| "splitBy matchAt piece (c # cs) =
     (case matchAt (c # cs) of
        Some n \<Rightarrow> rev piece # splitBy matchAt [] (drop (n - 1) cs)
      | None \<Rightarrow> splitBy matchAt (c # piece) cs)"
  by pat_completeness auto
termination
  by (relation "measure (\<lambda>(matchAt, piece, s). length s)") auto

text \<open>\<^verbatim>\<open>/Flashcard \d+:/gi\<close> and \<^verbatim>\<open>/Front:|Back:/gi\<close> at the head of a text.\<close>

definition flashcardHeaderAt :: "string \<Rightarrow> nat option" where
  "flashcardHeaderAt s =
     (if startsWithCI ''Flashcard '' s
      then (let r = drop 10 s; ds = takeWhile isDigit r
            in if ds \<noteq> [] \<and> take 1 (dropWhile isDigit r) = '':''
               then Some (10 + length ds + 1) else None)
      else None)"

definition frontBackAt :: "string \<Rightarrow> nat option" where
  "frontBackAt s =
     (if startsWithCI ''Front:'' s then Some 6
      else if startsWithCI ''Back:'' s then Some 5
      else None)"

definition sections :: "string \<Rightarrow> string list" where
  "sections generatedText = filter (\<lambda>s. s \<noteq> []) (splitBy flashcardHeaderAt [] generatedText)"

definition parts :: "string \<Rightarrow> string list" where
  "parts section = filter (\<lambda>s. s \<noteq> []) (splitBy frontBackAt [] section)"

fun collectCards :: "string list \<Rightarrow> (string \<times> string) list" where
  "collectCards [] = []"
| "collectCards (section # rest) =
     (case parts section of
        p0 # p1 # ps \<Rightarrow> (trim p0, trim p1) # collectCards rest
      | _ \<Rightarrow> collectCards rest)"

definition fallbackCards :: "string \<Rightarrow> (string \<times> string) list" where
  "fallbackCards generatedText = collectCards (sections generatedText)"

definition cardJson :: "string \<times> string \<Rightarrow> json" where
  "cardJson c = JObject [(''front'', JString (fst c)), (''back'', JString (snd c))]"

definition respond :: "(string \<Rightarrow> json option) \<Rightarrow> string \<Rightarrow> http_reply" where
  "respond parse generatedText =
     (case structured parse (jsonString generatedText) of
        Some cards \<Rightarrow> Reply200 cards
      | None \<Rightarrow>
          let cards = fallbackCards generatedText
          in if cards = []
             then ReplyError 422 ''Failed to parse flashcards from AI response''
             else Reply200 (map cardJson cards))"

definition generateFlashcards :: "string \<Rightarrow> http_reply" where
  "generateFlashcards generatedText = respond JSON_parse generatedText"

section \<open>Study planner: the duration parser\<close>

text \<open>
  \<^verbatim>\<open>duration.match(/(\d+)(?:\s+)?hours?/i)\<close>: at one start position the greedy \<open>\d+\<close>
  takes the whole run of digits and the optional \<open>\s+\<close> the whole run of white space;
  giving digits or white space back leaves a digit or a white-space character where the
  letter \<open>h\<close> is wanted, so backtracking finds nothing more. The result is the first
  capture group of the leftmost match.
\<close>

definition unitAt :: "string \<Rightarrow> string \<Rightarrow> string option" where
  "unitAt unit s =
     (let ds = takeWhile isDigit s;
          rest = dropWhile isSpace (dropWhile isDigit s)
      in if ds \<noteq> [] \<and> startsWithCI unit rest then Some ds else None)"

fun unitMatch :: "string \<Rightarrow> string \<Rightarrow> string option" where
  "unitMatch unit [] = None"
| "unitMatch unit (c # cs) =
     (case unitAt unit (c # cs) of
        Some ds \<Rightarrow> Some ds
      | None \<Rightarrow> unitMatch unit cs)"

definition hourMatch :: "string \<Rightarrow> string option" where
  "hourMatch duration = unitMatch ''hour'' duration"

definition minuteMatch :: "string \<Rightarrow> string option" where
  "minuteMatch duration = unitMatch ''minute'' duration"

text \<open>\<^verbatim>\<open>duration.match(/(\d+\.5)(?:\s+)?hours?/i)\<close>; only whether it matches is used.\<close>

definition halfHourAt :: "string \<Rightarrow> bool" where
  "halfHourAt s =
     (let ds = takeWhile isDigit s;
          r = dropWhile isDigit s
      in ds \<noteq> [] \<and> take 2 r = ''.5'' \<and> startsWithCI ''hour'' (dropWhile isSpace (drop 2 r)))"

fun halfHourMatch :: "string \<Rightarrow> bool" where
  "halfHourMatch [] = False"
| "halfHourMatch (c # cs) = (halfHourAt (c # cs) \<or> halfHourMatch cs)"

definition extractMinutes :: "string \<Rightarrow> nat" where
  "extractMinutes duration =
     (let totalMinutes =
            (case hourMatch duration of Some h \<Rightarrow> parseInt h * 60 | None \<Rightarrow> 0)
          + (case minuteMatch duration of Some m \<Rightarrow> parseInt m | None \<Rightarrow> 0)
          + (if halfHourMatch duration then 30 else 0)
      in if totalMinutes = 0 then 60 else totalMinutes)"

section \<open>Saved PDFs: the download name\<close>

record SavedPDF =
  pdf_id :: string
  title :: string
  pdf_data :: string
  pdf_created_at :: string
  pdf_user_id :: "string option"

record download_link =
  href :: string
  download :: string

text \<open>\<^verbatim>\<open>title.replace(/[^a-z0-9]/gi, '_')\<close>: every character that is not an ASCII letter
  or digit is replaced by an underscore.\<close>

definition replaceNonAlnum :: "string \<Rightarrow> string" where
  "replaceNonAlnum s =
     map (\<lambda>c. if isLowerLetter c \<or> isUpperLetter c \<or> isDigit c then c else CHR ''_'') s"

definition downloadName :: "string \<Rightarrow> string" where
  "downloadName t = toLowerCase (replaceNonAlnum t)"

definition handleDownloadPDF :: "SavedPDF \<Rightarrow> download_link" where
  "handleDownloadPDF pdf =
     \<lparr> href = pdf_data pdf, download = downloadName (title pdf) @ ''.pdf'' \<rparr>"

definition lowerAlnum :: "char \<Rightarrow> bool" where
  "lowerAlnum c = (isLowerLetter c \<or> isDigit c)"

section \<open>Facts about characters\<close>

lemma upper_to_lower: "\<forall>c\<in>set ''ABCDEFGHIJKLMNOPQRSTUVWXYZ''. isLowerLetter (lowerChar c)"
  by code_simp

lemma lower_fixed_letter: "\<forall>c\<in>set ''abcdefghijklmnopqrstuvwxyz''. lowerChar c = c"
  by code_simp

lemma lower_fixed_digit: "\<forall>c\<in>set ''0123456789''. lowerChar c = c"
  by code_simp

lemma lower_fixed_underscore: "lowerChar CHR ''_'' = CHR ''_''"
  by code_simp

lemma lowerChar_class:
  assumes "isLowerLetter c \<or> isUpperLetter c \<or> isDigit c"
  shows "lowerAlnum (lowerChar c)"
proof -
  consider (low) "isLowerLetter c" | (up) "isUpperLetter c" | (dig) "isDigit c"
    using assms by blast
  then show ?thesis
  proof cases
    case low
    then have "lowerChar c = c"
      using lower_fixed_letter unfolding isLowerLetter_def by blast
    with low show ?thesis by (simp add: lowerAlnum_def)
  next
    case up
    then have "isLowerLetter (lowerChar c)"
      using upper_to_lower unfolding isUpperLetter_def by blast
    then show ?thesis by (simp add: lowerAlnum_def)
  next
    case dig
    then have "lowerChar c = c"
      using lower_fixed_digit unfolding isDigit_def by blast
    with dig show ?thesis by (simp add: lowerAlnum_def)
  qed
qed

section \<open>The download name of a saved PDF\<close>

text \<open>
  Claim C9, as stated: every character of the name part of the download file name is a
  lower-case letter or a digit. The code replaces each other character by an underscore
  and keeps it, so the title \<open>My Notes\<close> is offered as \<open>my_notes.pdf\<close>, whose name part
  holds an underscore.
\<close>

theorem downloadName_underscore_counterexample:
  "download (handleDownloadPDF
      \<lparr> pdf_id = ''1'', title = ''My Notes'', pdf_data = ''data:application/pdf;base64,'',
        pdf_created_at = ''2024-05-10'', pdf_user_id = Some ''u'' \<rparr>) = ''my_notes.pdf''
   \<and> \<not> list_all lowerAlnum (downloadName ''My Notes'')"
  by code_simp

text \<open>
  Claim C9, amended: the download file name is the sanitised title followed by \<open>.pdf\<close>; the
  sanitised title has the title's length, each ASCII letter or digit of the title appears
  lower-cased at its place, every other character is replaced by an underscore, and so
  every character of the name part is a lower-case letter, a digit or an underscore.
\<close>

theorem downloadName_sanitised:
  "download (handleDownloadPDF pdf) = downloadName (title pdf) @ ''.pdf''
   \<and> length (downloadName (title pdf)) = length (title pdf)
   \<and> list_all (\<lambda>c. lowerAlnum c \<or> c = CHR ''_'') (downloadName (title pdf))
   \<and> downloadName (title pdf) =
       map (\<lambda>c. if isLowerLetter c \<or> isUpperLetter c \<or> isDigit c then lowerChar c else CHR ''_'')
         (title pdf)"
proof -
  have chars: "list_all (\<lambda>c. lowerAlnum c \<or> c = CHR ''_'') (downloadName t)" for t
    using lower_fixed_underscore lowerChar_class
    by (auto simp: downloadName_def toLowerCase_def replaceNonAlnum_def list_all_iff)
  have shape: "downloadName t =
      map (\<lambda>c. if isLowerLetter c \<or> isUpperLetter c \<or> isDigit c then lowerChar c else CHR ''_'') t"
    for t
    using lower_fixed_underscore
    by (simp add: downloadName_def toLowerCase_def replaceNonAlnum_def)
  have len: "length (downloadName t) = length t" for t
    by (simp add: downloadName_def toLowerCase_def replaceNonAlnum_def)
  show ?thesis
    using chars [of "title pdf"] shape [of "title pdf"] len [of "title pdf"]
    by (simp add: handleDownloadPDF_def)
qed

theorem downloadName_sanitised_witness:
  "download (handleDownloadPDF
      \<lparr> pdf_id = ''1'', title = ''Week 3: DNA'', pdf_data = ''data:application/pdf;base64,'',
        pdf_created_at = ''2024-05-10'', pdf_user_id = Some ''u'' \<rparr>) = ''week_3__dna.pdf''
   \<and> list_all (\<lambda>c. lowerAlnum c \<or> c = CHR ''_'')
        (downloadName (title
          \<lparr> pdf_id = ''1'', title = ''Week 3: DNA'', pdf_data = ''data:application/pdf;base64,'',
            pdf_created_at = ''2024-05-10'', pdf_user_id = Some ''u'' \<rparr>))"
proof (rule conjI)
  show "download (handleDownloadPDF
      \<lparr> pdf_id = ''1'', title = ''Week 3: DNA'', pdf_data = ''data:application/pdf;base64,'',
        pdf_created_at = ''2024-05-10'', pdf_user_id = Some ''u'' \<rparr>) = ''week_3__dna.pdf''"
    by code_simp
next
  show "list_all (\<lambda>c. lowerAlnum c \<or> c = CHR ''_'')
        (downloadName (title
          \<lparr> pdf_id = ''1'', title = ''Week 3: DNA'', pdf_data = ''data:application/pdf;base64,'',
            pdf_created_at = ''2024-05-10'', pdf_user_id = Some ''u'' \<rparr>))"
    using downloadName_sanitised
      [of "\<lparr> pdf_id = ''1'', title = ''Week 3: DNA'', pdf_data = ''data:application/pdf;base64,'',
        pdf_created_at = ''2024-05-10'', pdf_user_id = Some ''u'' \<rparr>"]
    by blast
qed

section \<open>The duration parser\<close>

text \<open>
  Claim C10: \<open>extractMinutes\<close> is total and returns a positive number of minutes for every
  duration text; a text that matches neither the hours pattern, nor the minutes pattern,
  nor the half-hour pattern gives the default 60; and the text \<open>1.5 hours\<close> gives 330 (the
  hours pattern finds the digit 5, worth 300 minutes, and the half-hour pattern adds 30),
  not 90.
\<close>

theorem extractMinutes_positive_default:
  "0 < extractMinutes d
   \<and> (hourMatch d = None \<and> minuteMatch d = None \<and> \<not> halfHourMatch d \<longrightarrow> extractMinutes d = 60)
   \<and> hourMatch ''1.5 hours'' = Some ''5''
   \<and> extractMinutes ''1.5 hours'' = 330"
proof -
  have "0 < extractMinutes d"
    by (simp add: extractMinutes_def Let_def)
  moreover have
    "hourMatch d = None \<and> minuteMatch d = None \<and> \<not> halfHourMatch d \<longrightarrow> extractMinutes d = 60"
    by (simp add: extractMinutes_def)
  moreover have "hourMatch ''1.5 hours'' = Some ''5''"
    by code_simp
  moreover have "extractMinutes ''1.5 hours'' = 330"
    by code_simp
  ultimately show ?thesis by blast
qed

theorem extractMinutes_positive_default_witness:
  "hourMatch ''soon'' = None \<and> minuteMatch ''soon'' = None \<and> \<not> halfHourMatch ''soon''
   \<and> extractMinutes ''soon'' = 60 \<and> 0 < extractMinutes ''soon''"
proof -
  have "hourMatch ''soon'' = None \<and> minuteMatch ''soon'' = None \<and> \<not> halfHourMatch ''soon''"
    by code_simp
  with extractMinutes_positive_default [of "''soon''"] show ?thesis by blast
qed

section \<open>Progress and completion are written together\<close>

lemma update_study_session_rows:
  "failure c = None \<Longrightarrow>
   study_sessions (snd (update_study_session c i p d st)) =
     map (\<lambda>r. if sr_id r = i then r\<lparr>sr_progress := Some p, sr_completed := Some d\<rparr> else r)
       (study_sessions st)"
  by (simp add: update_study_session_def arrive_def)

lemma update_study_session_ok:
  "failure c = None \<Longrightarrow> fst (update_study_session c i p d st) = Data ()"
  by (simp add: update_study_session_def)

lemma updateSessionProgress_sessions:
  "failure c = None \<Longrightarrow>
   fst (updateSessionProgress (Some u) c i p ss st) =
     map (\<lambda>s. if ss_id s = i then s\<lparr>ss_progress := p, ss_completed := numberGe p 100\<rparr> else s) ss"
  by (simp add: updateSessionProgress_def update_study_session_def Let_def)

lemma updateSessionProgress_store:
  "failure c = None \<Longrightarrow>
   study_sessions (fst (snd (updateSessionProgress (Some u) c i p ss st))) =
     map (\<lambda>r. if sr_id r = i
               then r\<lparr>sr_progress := Some (numberToString p),
                      sr_completed := Some (booleanToString (numberGe p 100))\<rparr> else r)
       (study_sessions st)"
  by (simp add: updateSessionProgress_def update_study_session_def Let_def arrive_def)

lemma markSessionComplete_sessions:
  "failure c = None \<Longrightarrow>
   fst (markSessionComplete (Some u) c i ss st) =
     map (\<lambda>s. if ss_id s = i then s\<lparr>ss_progress := Val 100, ss_completed := True\<rparr> else s) ss"
  by (simp add: markSessionComplete_def update_study_session_def Let_def)

lemma markSessionComplete_store:
  "failure c = None \<Longrightarrow>
   study_sessions (fst (snd (markSessionComplete (Some u) c i ss st))) =
     map (\<lambda>r. if sr_id r = i
               then r\<lparr>sr_progress := Some ''100'', sr_completed := Some ''true''\<rparr> else r)
       (study_sessions st)"
  by (simp add: markSessionComplete_def update_study_session_def Let_def arrive_def)

lemma markSessionComplete_events:
  "failure c = None \<Longrightarrow>
   snd (snd (markSessionComplete (Some u) c i ss st)) =
     [SessionCompleted i (map_option ss_subject (find (\<lambda>s. ss_id s = i) ss))]"
proof -
  have "map_option ss_subject (find (\<lambda>s. ss_id s = i)
          (map (\<lambda>s. if ss_id s = i then s\<lparr>ss_progress := Val 100, ss_completed := True\<rparr> else s) xs))
        = map_option ss_subject (find (\<lambda>s. ss_id s = i) xs)" for xs
    by (induction xs) auto
  then show "failure c = None \<Longrightarrow> ?thesis"
    by (simp add: markSessionComplete_def update_study_session_def Let_def)
qed

lemma written_by_updateSessionProgress:
  assumes "failure c = None"
    and "s \<in> set (fst (updateSessionProgress (Some u) c i p ss st))"
    and "ss_id s = i"
  shows "ss_progress s = p \<and> ss_completed s = numberGe p 100"
proof -
  from assms(2) obtain s0 where
    "s = (if ss_id s0 = i then s0\<lparr>ss_progress := p, ss_completed := numberGe p 100\<rparr> else s0)"
    unfolding updateSessionProgress_sessions [OF assms(1)] set_map by (rule imageE)
  with assms(3) show ?thesis
    by (cases "ss_id s0 = i") simp_all
qed

lemma written_by_markSessionComplete:
  assumes "failure c = None"
    and "s \<in> set (fst (markSessionComplete (Some u) c i ss st))"
    and "ss_id s = i"
  shows "ss_progress s = Val 100 \<and> ss_completed s"
proof -
  from assms(2) obtain s0 where
    "s = (if ss_id s0 = i then s0\<lparr>ss_progress := Val 100, ss_completed := True\<rparr> else s0)"
    unfolding markSessionComplete_sessions [OF assms(1)] set_map by (rule imageE)
  with assms(3) show ?thesis
    by (cases "ss_id s0 = i") simp_all
qed

lemma stored_by_updateSessionProgress:
  assumes "failure c = None"
    and "r \<in> set (study_sessions (fst (snd (updateSessionProgress (Some u) c i p ss st))))"
    and "sr_id r = i"
  shows "sr_progress r = Some (numberToString p)
         \<and> sr_completed r = Some (booleanToString (numberGe p 100))"
proof -
  from assms(2) obtain r0 where
    "r = (if sr_id r0 = i
          then r0\<lparr>sr_progress := Some (numberToString p),
                  sr_completed := Some (booleanToString (numberGe p 100))\<rparr> else r0)"
    unfolding updateSessionProgress_store [OF assms(1)] set_map by (rule imageE)
  with assms(3) show ?thesis
    by (cases "sr_id r0 = i") simp_all
qed

lemma stored_by_markSessionComplete:
  assumes "failure c = None"
    and "r \<in> set (study_sessions (fst (snd (markSessionComplete (Some u) c i ss st))))"
    and "sr_id r = i"
  shows "sr_progress r = Some ''100'' \<and> sr_completed r = Some ''true''"
proof -
  from assms(2) obtain r0 where
    "r = (if sr_id r0 = i
          then r0\<lparr>sr_progress := Some ''100'', sr_completed := Some ''true''\<rparr> else r0)"
    unfolding markSessionComplete_store [OF assms(1)] set_map by (rule imageE)
  with assms(3) show ?thesis
    by (cases "sr_id r0 = i") simp_all
qed

text \<open>
  Claim C4, as stated: one code path sets a session's progress to 100 without setting
  completed, and another sets completed without setting progress to 100. Neither
  \<open>updateSessionProgress\<close> nor \<open>markSessionComplete\<close> ever leaves the session it writes with
  progress 100 and completed false, and \<open>markSessionComplete\<close> never leaves it completed
  with a progress other than 100.
\<close>

theorem no_progress_100_without_completed_counterexample:
  "\<not> (\<exists>u c i p ss st s. failure c = None
         \<and> s \<in> set (fst (updateSessionProgress (Some u) c i p ss st))
         \<and> ss_id s = i \<and> ss_progress s = Val 100 \<and> \<not> ss_completed s)
   \<and> \<not> (\<exists>u c i ss st s. failure c = None
         \<and> s \<in> set (fst (markSessionComplete (Some u) c i ss st))
         \<and> ss_id s = i \<and> (ss_progress s \<noteq> Val 100 \<or> \<not> ss_completed s))"
proof (rule conjI)
  show "\<not> (\<exists>u c i p ss st s. failure c = None
         \<and> s \<in> set (fst (updateSessionProgress (Some u) c i p ss st))
         \<and> ss_id s = i \<and> ss_progress s = Val 100 \<and> \<not> ss_completed s)"
  proof
    assume "\<exists>u c i p ss st s. failure c = None
         \<and> s \<in> set (fst (updateSessionProgress (Some u) c i p ss st))
         \<and> ss_id s = i \<and> ss_progress s = Val 100 \<and> \<not> ss_completed s"
    then obtain u c i p ss st s where h: "failure c = None"
      "s \<in> set (fst (updateSessionProgress (Some u) c i p ss st))"
      "ss_id s = i" "ss_progress s = Val 100" "\<not> ss_completed s"
      by blast
    from written_by_updateSessionProgress [OF h(1,2,3)]
    have w: "ss_progress s = p" "ss_completed s = numberGe p 100" by simp_all
    from w(1) h(4) have "p = Val 100" by simp
    then have "numberGe p 100" by (simp add: numberGe_def)
    with w(2) h(5) show False by simp
  qed
next
  show "\<not> (\<exists>u c i ss st s. failure c = None
         \<and> s \<in> set (fst (markSessionComplete (Some u) c i ss st))
         \<and> ss_id s = i \<and> (ss_progress s \<noteq> Val 100 \<or> \<not> ss_completed s))"
  proof
    assume "\<exists>u c i ss st s. failure c = None
         \<and> s \<in> set (fst (markSessionComplete (Some u) c i ss st))
         \<and> ss_id s = i \<and> (ss_progress s \<noteq> Val 100 \<or> \<not> ss_completed s)"
    then obtain u c i ss st s where h: "failure c = None"
      "s \<in> set (fst (markSessionComplete (Some u) c i ss st))"
      "ss_id s = i" "ss_progress s \<noteq> Val 100 \<or> \<not> ss_completed s"
      by blast
    from written_by_markSessionComplete [OF h(1,2,3)] h(4)
    show False by blast
  qed
qed

text \<open>
  Claim C4, amended: both operations write progress and completion together, in the list
  of the planner and in the store. \<open>updateSessionProgress\<close> stores the progress it is given
  and completed = (progress \<ge> 100); \<open>markSessionComplete\<close> stores progress 100 and completed
  true. So for a progress of at most 100, the range of the slider, the session written by
  either operation is completed exactly when its progress is 100.
\<close>

theorem progress_and_completed_written_together:
  assumes "failure c = None"
  shows "(\<forall>s\<in>set (fst (updateSessionProgress (Some u) c i (Val p) ss st)). ss_id s = i \<longrightarrow>
            ss_progress s = Val p \<and> (ss_completed s \<longleftrightarrow> 100 \<le> p)
            \<and> (p \<le> 100 \<longrightarrow> (ss_completed s \<longleftrightarrow> ss_progress s = Val 100)))
       \<and> (\<forall>r\<in>set (study_sessions (fst (snd (updateSessionProgress (Some u) c i (Val p) ss st)))).
            sr_id r = i \<longrightarrow>
            sr_progress r = Some (numberToString (Val p))
            \<and> (decodeCompleted (sr_completed r) \<longleftrightarrow> 100 \<le> p))
       \<and> (\<forall>s\<in>set (fst (markSessionComplete (Some u) c i ss st)). ss_id s = i \<longrightarrow>
            ss_progress s = Val 100 \<and> ss_completed s)
       \<and> (\<forall>r\<in>set (study_sessions (fst (snd (markSessionComplete (Some u) c i ss st)))).
            sr_id r = i \<longrightarrow> sr_progress r = Some ''100'' \<and> sr_completed r = Some ''true'')"
proof (intro conjI ballI impI)
  fix s assume s: "s \<in> set (fst (updateSessionProgress (Some u) c i (Val p) ss st))" "ss_id s = i"
  from written_by_updateSessionProgress [OF assms s]
  have w: "ss_progress s = Val p" "ss_completed s = (100 \<le> p)"
    by (simp_all add: numberGe_def)
  show "ss_progress s = Val p" by (rule w(1))
  show "ss_completed s \<longleftrightarrow> 100 \<le> p" by (simp add: w(2))
  show "ss_completed s \<longleftrightarrow> ss_progress s = Val 100" if "p \<le> 100"
    using that w by auto
next
  fix r assume r: "r \<in> set (study_sessions (fst (snd (updateSessionProgress (Some u) c i (Val p) ss st))))"
    "sr_id r = i"
  from stored_by_updateSessionProgress [OF assms r]
  have w: "sr_progress r = Some (numberToString (Val p))"
    "sr_completed r = Some (booleanToString (100 \<le> p))"
    by (simp_all add: numberGe_def)
  show "sr_progress r = Some (numberToString (Val p))" by (rule w(1))
  show "decodeCompleted (sr_completed r) \<longleftrightarrow> 100 \<le> p"
    by (simp add: w(2) decodeCompleted_def booleanToString_def)
next
  fix s assume s: "s \<in> set (fst (markSessionComplete (Some u) c i ss st))" "ss_id s = i"
  from written_by_markSessionComplete [OF assms s]
  show "ss_progress s = Val 100" "ss_completed s" by simp_all
next
  fix r assume r: "r \<in> set (study_sessions (fst (snd (markSessionComplete (Some u) c i ss st))))"
    "sr_id r = i"
  from stored_by_markSessionComplete [OF assms r]
  show "sr_progress r = Some ''100''" "sr_completed r = Some ''true''" by simp_all
qed

lemma ok_succeeds: "failure ok = None"
  by (simp add: ok_def)

theorem progress_and_completed_written_together_witness:
  "failure ok = None
   \<and> ss_id (hd (fst (updateSessionProgress (Some ''u1'') ok (ServerId 1) (Val 100) mathSessions mathStore)))
       = ServerId 1
   \<and> ss_progress (hd (fst (updateSessionProgress (Some ''u1'') ok (ServerId 1) (Val 100) mathSessions mathStore)))
       = Val 100
   \<and> ss_completed (hd (fst (updateSessionProgress (Some ''u1'') ok (ServerId 1) (Val 100) mathSessions mathStore)))"
proof -
  let ?s = "hd (fst (updateSessionProgress (Some ''u1'') ok (ServerId 1) (Val 100) mathSessions mathStore))"
  have m: "?s \<in> set (fst (updateSessionProgress (Some ''u1'') ok (ServerId 1) (Val 100) mathSessions mathStore))"
    by code_simp
  have i: "ss_id ?s = ServerId 1"
    by code_simp
  from progress_and_completed_written_together [OF ok_succeeds, of "''u1''" "ServerId 1" 100 mathSessions mathStore]
  have "\<forall>s\<in>set (fst (updateSessionProgress (Some ''u1'') ok (ServerId 1) (Val 100) mathSessions mathStore)).
          ss_id s = ServerId 1 \<longrightarrow> ss_progress s = Val 100 \<and> (ss_completed s \<longleftrightarrow> (100::int) \<le> 100)
            \<and> ((100::int) \<le> 100 \<longrightarrow> (ss_completed s \<longleftrightarrow> ss_progress s = Val 100))"
    by (rule conjunct1)
  with m i have "ss_progress ?s = Val 100 \<and> ss_completed ?s"
    by simp
  with i ok_succeeds show ?thesis by simp
qed

section \<open>Marking a session complete\<close>

lemma decode_100: "decodeProgress (Some ''100'') = Val 100"
  by code_simp

lemma decode_true: "decodeCompleted (Some ''true'')"
  by (simp add: decodeCompleted_def)

lemma updateSubjectProgress_upcoming:
  "upcomingStudySessions (updateSubjectProgress user c subj st dash) = upcomingStudySessions dash"
  by (simp add: updateSubjectProgress_def Let_def split: option.split response.split)

text \<open>
  Claim C2: after \<open>markSessionComplete\<close> succeeds, the session has progress 100 and is
  completed, in the planner's list and in the store; the event it broadcasts is
  \<open>session-completed\<close> for that session; and the dashboard, handling that event, first
  removes the session from its upcoming sessions and then recomputes the aggregate of the
  subject, which leaves the upcoming sessions alone.
\<close>

theorem markSessionComplete_then_dashboard:
  assumes "failure c = None"
  shows "map ss_id (fst (markSessionComplete (Some u) c i ss st)) = map ss_id ss
       \<and> (\<forall>s\<in>set (fst (markSessionComplete (Some u) c i ss st)). ss_id s = i \<longrightarrow>
            ss_progress s = Val 100 \<and> ss_completed s)
       \<and> (\<forall>r\<in>set (study_sessions (fst (snd (markSessionComplete (Some u) c i ss st)))).
            sr_id r = i \<longrightarrow>
            decodeProgress (sr_progress r) = Val 100 \<and> decodeCompleted (sr_completed r))
       \<and> snd (snd (markSessionComplete (Some u) c i ss st)) =
            [SessionCompleted i (map_option ss_subject (find (\<lambda>s. ss_id s = i) ss))]
       \<and> (\<forall>d\<in>set (upcomingStudySessions (handleSessionCompleted du dc (i, subj) st' dash)).
            ds_id d \<noteq> i)
       \<and> upcomingStudySessions (handleSessionCompleted du dc (i, subj) st' dash) =
            filter (\<lambda>d. ds_id d \<noteq> i) (upcomingStudySessions dash)
       \<and> handleSessionCompleted du dc (i, subj) st' dash =
            updateSubjectProgress du dc subj st'
              (dash\<lparr>upcomingStudySessions :=
                       filter (\<lambda>d. ds_id d \<noteq> i) (upcomingStudySessions dash),
                     updatingProgress := Some subj\<rparr>)"
proof (intro conjI ballI impI)
  show "map ss_id (fst (markSessionComplete (Some u) c i ss st)) = map ss_id ss"
    unfolding markSessionComplete_sessions [OF assms]
    by (induction ss) simp_all
next
  fix s assume s: "s \<in> set (fst (markSessionComplete (Some u) c i ss st))" "ss_id s = i"
  from written_by_markSessionComplete [OF assms s]
  show "ss_progress s = Val 100" "ss_completed s" by simp_all
next
  fix r assume r: "r \<in> set (study_sessions (fst (snd (markSessionComplete (Some u) c i ss st))))"
    "sr_id r = i"
  from stored_by_markSessionComplete [OF assms r]
  show "decodeProgress (sr_progress r) = Val 100" "decodeCompleted (sr_completed r)"
    by (simp_all add: decode_100 decode_true)
next
  show "snd (snd (markSessionComplete (Some u) c i ss st)) =
            [SessionCompleted i (map_option ss_subject (find (\<lambda>s. ss_id s = i) ss))]"
    by (rule markSessionComplete_events [OF assms])
next
  have up: "upcomingStudySessions (handleSessionCompleted du dc (i, subj) st' dash) =
            filter (\<lambda>d. ds_id d \<noteq> i) (upcomingStudySessions dash)"
    by (simp add: handleSessionCompleted_def updateSubjectProgress_upcoming)
  show "upcomingStudySessions (handleSessionCompleted du dc (i, subj) st' dash) =
            filter (\<lambda>d. ds_id d \<noteq> i) (upcomingStudySessions dash)"
    by (rule up)
  show "ds_id d \<noteq> i"
    if "d \<in> set (upcomingStudySessions (handleSessionCompleted du dc (i, subj) st' dash))" for d
    using that unfolding up by simp
next
  show "handleSessionCompleted du dc (i, subj) st' dash =
            updateSubjectProgress du dc subj st'
              (dash\<lparr>upcomingStudySessions :=
                       filter (\<lambda>d. ds_id d \<noteq> i) (upcomingStudySessions dash),
                     updatingProgress := Some subj\<rparr>)"
    by (simp add: handleSessionCompleted_def)
qed

theorem markSessionComplete_then_dashboard_witness:
  "failure ok = None
   \<and> map ss_id (fst (markSessionComplete (Some ''u1'') ok (ServerId 1) mathSessions mathStore))
       = [ServerId 1, ServerId 2]
   \<and> snd (snd (markSessionComplete (Some ''u1'') ok (ServerId 1) mathSessions mathStore))
       = [SessionCompleted (ServerId 1) (Some ''Math'')]
   \<and> map ds_id (upcomingStudySessions mathDashboard) = [ServerId 1]
   \<and> upcomingStudySessions
         (handleSessionCompleted (Some ''u1'') ok (ServerId 1, ''Math'')
            (fst (snd (markSessionComplete (Some ''u1'') ok (ServerId 1) mathSessions mathStore)))
            mathDashboard) = []"
proof -
  note t = markSessionComplete_then_dashboard [OF ok_succeeds, of "''u1''" "ServerId 1"
      mathSessions mathStore "Some ''u1''" ok "''Math''"
      "fst (snd (markSessionComplete (Some ''u1'') ok (ServerId 1) mathSessions mathStore))"
      mathDashboard]
  have ids: "map ss_id mathSessions = [ServerId 1, ServerId 2]"
    by code_simp
  have subj: "map_option ss_subject (find (\<lambda>s. ss_id s = ServerId 1) mathSessions) = Some ''Math''"
    by code_simp
  have up: "map ds_id (upcomingStudySessions mathDashboard) = [ServerId 1]"
    by code_simp
  have gone: "filter (\<lambda>d. ds_id d \<noteq> ServerId 1) (upcomingStudySessions mathDashboard) = []"
    by code_simp
  from t have 1: "map ss_id (fst (markSessionComplete (Some ''u1'') ok (ServerId 1) mathSessions mathStore))
       = map ss_id mathSessions"
    by (rule conjunct1)
  from t have 2: "snd (snd (markSessionComplete (Some ''u1'') ok (ServerId 1) mathSessions mathStore))
       = [SessionCompleted (ServerId 1)
            (map_option ss_subject (find (\<lambda>s. ss_id s = ServerId 1) mathSessions))]"
    by (rule conjunct1 [OF conjunct2 [OF conjunct2 [OF conjunct2]]])
  from t have 3: "upcomingStudySessions
         (handleSessionCompleted (Some ''u1'') ok (ServerId 1, ''Math'')
            (fst (snd (markSessionComplete (Some ''u1'') ok (ServerId 1) mathSessions mathStore)))
            mathDashboard) = filter (\<lambda>d. ds_id d \<noteq> ServerId 1) (upcomingStudySessions mathDashboard)"
    by (rule conjunct1 [OF conjunct2 [OF conjunct2 [OF conjunct2 [OF conjunct2 [OF conjunct2]]]]])
  from ok_succeeds 1 2 3 up show ?thesis
    unfolding ids subj gone by (intro conjI)
qed

section \<open>The progress of a subject\<close>

text \<open>The rounding to a double: \<open>exponent\<close> finds the binade, and the rounded value is a
  multiple of the spacing of the binade at most half a spacing away.\<close>

lemma pow2_pos: "0 < pow2 e"
  by (simp add: pow2_def)

lemma pow2_Suc: "pow2 (e + 1) = 2 * pow2 e"
proof (cases "0 \<le> e")
  case True
  then have "nat (e + 1) = Suc (nat e)" by simp
  with True show ?thesis by (simp add: pow2_def)
next
  case False
  then have "nat (- e) = Suc (nat (- (e + 1)))" by simp
  with False show ?thesis by (simp add: pow2_def)
qed

lemma pow2_pred: "pow2 (e - 1) = pow2 e / 2"
  using pow2_Suc [of "e - 1"] by simp

lemma exponent_bounds:
  "0 < x \<Longrightarrow> pow2 (exponent x) \<le> x \<and> x < pow2 (exponent x + 1)"
proof (induction x rule: exponent.induct)
  case (1 x)
  show ?case
  proof (cases "2 \<le> x")
    case True
    with 1 have ih: "pow2 (exponent (x / 2)) \<le> x / 2 \<and> x / 2 < pow2 (exponent (x / 2) + 1)"
      by simp
    from True "1.prems" have e: "exponent x = exponent (x / 2) + 1"
      by (subst exponent.simps) simp
    have "pow2 (exponent x) = 2 * pow2 (exponent (x / 2))"
      unfolding e by (rule pow2_Suc)
    moreover have "pow2 (exponent x + 1) = 2 * pow2 (exponent (x / 2) + 1)"
      unfolding e by (rule pow2_Suc)
    ultimately show ?thesis
      using ih by simp
  next
    case False
    show ?thesis
    proof (cases "x < 1")
      case True
      with 1 False have ih: "pow2 (exponent (2 * x)) \<le> 2 * x \<and> 2 * x < pow2 (exponent (2 * x) + 1)"
        by simp
      from True False "1.prems" have e: "exponent x = exponent (2 * x) - 1"
        by (subst exponent.simps) simp
      have "pow2 (exponent x) = pow2 (exponent (2 * x)) / 2"
        unfolding e by (rule pow2_pred)
      moreover have "exponent x + 1 = exponent (2 * x)"
        unfolding e by simp
      moreover have "pow2 (exponent (2 * x) + 1) = 2 * pow2 (exponent (2 * x))"
        by (rule pow2_Suc)
      ultimately show ?thesis
        using ih by simp
    next
      case ge: False
      with False "1.prems" have "exponent x = 0"
        by (subst exponent.simps) simp
      with False ge show ?thesis
        by (simp add: pow2_def)
    qed
  qed
qed

lemma roundHalfEven_near: "\<bar>of_int (roundHalfEven x) - x\<bar> \<le> 1 / 2"
proof -
  define n where "n = \<lfloor>x\<rfloor>"
  have lo: "of_int n \<le> x" and hi: "x < of_int n + 1"
    unfolding n_def by linarith+
  consider "x - of_int n < 1 / 2" | "1 / 2 < x - of_int n" | "x - of_int n = 1 / 2"
    by linarith
  then show ?thesis
  proof cases
    case 1
    then have "roundHalfEven x = n"
      by (simp add: roundHalfEven_def n_def Let_def)
    with lo 1 show ?thesis by simp
  next
    case 2
    then have "roundHalfEven x = n + 1"
      by (simp add: roundHalfEven_def n_def Let_def)
    with hi 2 show ?thesis by simp
  next
    case 3
    then have "roundHalfEven x = n \<or> roundHalfEven x = n + 1"
      by (simp add: roundHalfEven_def n_def Let_def)
    with 3 show ?thesis by auto
  qed
qed

lemma roundToDouble_near:
  "\<bar>roundToDouble x - x\<bar> \<le> pow2 (max (exponent \<bar>x\<bar>) (- 1022) - 53)"
proof (cases "x = 0")
  case True
  then show ?thesis by (simp add: roundToDouble_def pow2_pos less_imp_le)
next
  case False
  define ulp where "ulp = pow2 (max (exponent \<bar>x\<bar>) (- 1022) - 52)"
  have pos: "0 < ulp" by (simp add: ulp_def pow2_pos)
  have half: "pow2 (max (exponent \<bar>x\<bar>) (- 1022) - 53) = ulp / 2"
    using pow2_pred [of "max (exponent \<bar>x\<bar>) (- 1022) - 52"] by (simp add: ulp_def)
  have "roundToDouble x - x = (of_int (roundHalfEven (x / ulp)) - x / ulp) * ulp"
    using False pos by (simp add: roundToDouble_def ulp_def Let_def algebra_simps)
  then have "\<bar>roundToDouble x - x\<bar> = \<bar>of_int (roundHalfEven (x / ulp)) - x / ulp\<bar> * ulp"
    using pos by (simp add: abs_mult)
  also have "\<dots> \<le> 1 / 2 * ulp"
    using roundHalfEven_near [of "x / ulp"] pos by (intro mult_right_mono) simp_all
  finally show ?thesis by (simp add: half)
qed

lemma roundToDouble_multiple:
  "\<exists>m. roundToDouble x = of_int m * pow2 (max (exponent \<bar>x\<bar>) (- 1022) - 52)"
  by (cases "x = 0") (auto simp: roundToDouble_def Let_def intro: exI [of _ 0])

text \<open>The arithmetic on known values: 15 and 100 are their own doubles, \<open>15 / 100\<close> is the
  double below 0.15, \<open>0.1 + 0.2\<close> is 0.30000000000000004 and \<open>0.1 + 0.35\<close> is
  0.44999999999999996.\<close>

lemma double_examples:
  "toDouble 15 = 15 \<and> toDouble 100 = 100
   \<and> divideDouble 15 100 = 5404319552844595 / 36028797018963968
   \<and> plusDouble (divideDouble 1 10) (divideDouble 2 10) = 1351079888211149 / 4503599627370496
   \<and> plusDouble (divideDouble 1 10) (divideDouble 35 100) = 2026619832316723 / 4503599627370496"
  by code_simp

text \<open>The example of the specification, one session at 50 and one complete: loading the
  dashboard and \<open>updateSubjectProgress\<close> both show 75.\<close>

lemma aggregate_of_50_and_complete:
  "studyProgress (fetchStudyProgress (Some ''u1'') ok ok mathStore emptyDashboard) =
     [\<lparr> sp_subject = ''Math'', sp_progress = 75, sp_totalSessions = 2,
        sp_completedSessions = 2 \<rparr>]
   \<and> studyProgress (updateSubjectProgress (Some ''u1'') ok ''Math'' mathStore emptyDashboard) =
     [\<lparr> sp_subject = ''Math'', sp_progress = 75, sp_totalSessions = 2,
        sp_completedSessions = 2 \<rparr>]
   \<and> specAggregate (map rowSummary (sessionsOf ''u1'' ''Math'' mathStore)) = 75"
  by code_simp

text \<open>
  Claim C1: the aggregate of a subject is \<open>round(100 * \<Sigma>(contribution) / count)\<close>. The code
  misses it on a mean that lies half-way between two whole percentages. In \<open>mathStore15\<close>
  the subject Math has one session at 15, not completed, and one completed session: the
  formula gives \<open>round(57.5) = 58\<close>, but the dashboard shows 57, when it is loaded as well as
  when \<open>updateSubjectProgress\<close> recomputes the subject from the store. The sum of the
  doubles \<open>15 / 100\<close> and 1 is the double below 1.15, and its half times 100 is the double
  57.49999999999999, below the half that \<open>Math.round\<close> would take upwards.
\<close>

theorem halfway_aggregate_rounds_down:
  "map (\<lambda>r. (sr_subject r, sr_progress r, sr_completed r)) (study_sessions mathStore15) =
     [(''Math'', Some ''15'', Some ''false''), (''Math'', Some ''100'', Some ''true'')]
   \<and> map rowSummary (sessionsOf ''u1'' ''Math'' mathStore15) = [(False, 15), (True, 100)]
   \<and> specAggregate (map rowSummary (sessionsOf ''u1'' ''Math'' mathStore15)) = 58
   \<and> studyProgress (fetchStudyProgress (Some ''u1'') ok ok mathStore15 emptyDashboard) =
       [\<lparr> sp_subject = ''Math'', sp_progress = 57, sp_totalSessions = 2,
          sp_completedSessions = 1 \<rparr>]
   \<and> studyProgress (updateSubjectProgress (Some ''u1'') ok ''Math'' mathStore15 emptyDashboard) =
       [\<lparr> sp_subject = ''Math'', sp_progress = 57, sp_totalSessions = 2,
          sp_completedSessions = 1 \<rparr>]
   \<and> addSession True (Val 100) (addSession False (Val 15) 0) =
       2589569785738035 / 2251799813685248
   \<and> timesDouble (divideDouble (addSession True (Val 100) (addSession False (Val 15) 0)) 2) 100 =
       8092405580431359 / 140737488355328
   \<and> percentOf (addSession True (Val 100) (addSession False (Val 15) 0)) 2 = 57"
  by code_simp

section \<open>Deleting a session and undoing it\<close>

text \<open>
  Claim C3 says that undoing a deletion gives a session with the same subject, topic,
  date, duration, notes, progress and completion under a new identifier. The code writes
  the day of the session on the local clock and reads it back as midnight in UTC, so west
  of UTC the restored session is dated a day early. With the browser five hours behind
  UTC, the session of 2024-05-10 (day 19853) comes back for 2024-05-09; the list of the
  planner then also still holds the deleted session, since the \<open>Undo\<close> button appends to the
  list from before the deletion.
\<close>

theorem undo_shifts_date_west_of_utc:
  "find (\<lambda>s. ss_id s = ServerId 1) mathSessions =
     Some \<lparr> ss_id = ServerId 1, ss_user_id = ''u1'', ss_subject = ''Math'', ss_topic = ''A'',
            ss_date = newDate 19853, ss_startTime = ''09:00'', ss_duration = ''1 hour'',
            ss_notes = [], ss_created_at = 1, ss_progress = Val 50, ss_completed = False \<rparr>
   \<and> map_option (\<lambda>(sessions, st, events). (events, map ss_id sessions))
       (deleteThenUndo (- 300) ok ok (ServerId 1) mathSessions mathStore) =
     Some ([SessionRestored
             \<lparr> ss_id = ServerId 3, ss_user_id = ''u1'', ss_subject = ''Math'', ss_topic = ''A'',
               ss_date = newDate 19852, ss_startTime = ''09:00'', ss_duration = ''1 hour'',
               ss_notes = [], ss_created_at = 12, ss_progress = Val 50, ss_completed = False \<rparr>],
           [ServerId 1, ServerId 2, ServerId 3])
   \<and> newDate 19852 \<noteq> newDate 19853"
  by code_simp

section \<open>The card count of a deck\<close>

lemma countsAgree_replace:
  "list_all countsAgree ds \<Longrightarrow> countsAgree d \<Longrightarrow>
   list_all countsAgree (map (\<lambda>deck. if dk_id deck = i then d else deck) ds)"
  by (induction ds) simp_all

lemma handleUpdateDeck_view:
  "fst (handleUpdateDeck ci cd cu updatedDeck view st) = view
   \<or> fst (handleUpdateDeck ci cd cu updatedDeck view st) =
       view\<lparr>decks := map (\<lambda>deck. if dk_id deck = dk_id updatedDeck then updatedDeck else deck)
                        (decks view),
            selectedDeck := Some updatedDeck\<rparr>"
proof (cases "find (\<lambda>deck. dk_id deck = dk_id updatedDeck) (decks view)")
  case None
  then show ?thesis by (simp add: handleUpdateDeck_def)
next
  case (Some originalDeck)
  let ?newCards = "filter (\<lambda>card. \<not> list_ex (\<lambda>origCard. fc_id origCard = fc_id card)
                                    (dk_flashcards originalDeck))
                  (dk_flashcards updatedDeck)"
  let ?deleted = "map fc_id
                  (filter (\<lambda>origCard. \<not> list_ex (\<lambda>card. fc_id card = fc_id origCard)
                                           (dk_flashcards updatedDeck))
                     (dk_flashcards originalDeck))"
  let ?updated = "filter (\<lambda>card. list_ex (\<lambda>origCard. fc_id origCard = fc_id card
                                           \<and> (fc_front origCard \<noteq> fc_front card
                                              \<or> fc_back origCard \<noteq> fc_back card))
                                  (dk_flashcards originalDeck))
                  (dk_flashcards updatedDeck)"
  obtain r1 st1 where s1: "(if ?newCards \<noteq> []
                    then insert_flashcards ci
                           (map (\<lambda>card. \<lparr> nc_deck_id = dk_id updatedDeck,
                                          nc_front = fc_front card, nc_back = fc_back card \<rparr>)
                              ?newCards) st
                    else (Data [], st)) = (r1, st1)"
    by (rule prod.exhaust)
  obtain r2 st2 where s2: "(if ?deleted \<noteq> []
                         then delete_flashcards cd ?deleted st1
                         else (Data (), st1)) = (r2, st2)"
    by (rule prod.exhaust)
  obtain r3 st3 where s3: "updateCards cu ?updated st2 = (r3, st3)"
    by (rule prod.exhaust)
  have "handleUpdateDeck ci cd cu updatedDeck view st =
        (case r1 of Error e \<Rightarrow> (view, st1)
         | Data _ \<Rightarrow>
           (case r2 of Error e \<Rightarrow> (view, st2)
            | Data _ \<Rightarrow>
              (case r3 of Error e \<Rightarrow> (view, st3)
               | Data _ \<Rightarrow>
                   (view\<lparr>decks :=
                           map (\<lambda>deck. if dk_id deck = dk_id updatedDeck
                                       then updatedDeck else deck) (decks view),
                         selectedDeck := Some updatedDeck\<rparr>, st3))))"
    unfolding handleUpdateDeck_def Let_def Some option.case s1 prod.case
    by (cases r1; cases r2; cases r3) (simp_all only: response.case s2 s3 prod.case)
  then show ?thesis
    by (cases r1; cases r2; cases r3) simp_all
qed

lemma handleUpdateDeck_agrees:
  assumes "viewAgrees view" and "countsAgree updatedDeck"
  shows "viewAgrees (fst (handleUpdateDeck ci cd cu updatedDeck view st))"
proof -
  have "viewAgrees
          (view\<lparr>decks := map (\<lambda>deck. if dk_id deck = dk_id updatedDeck then updatedDeck else deck)
                           (decks view),
                selectedDeck := Some updatedDeck\<rparr>)"
    using assms by (simp add: viewAgrees_def countsAgree_replace)
  with assms(1) handleUpdateDeck_view [of ci cd cu updatedDeck view st] show ?thesis
    by auto
qed

lemma selected_agrees:
  "viewAgrees view \<Longrightarrow> selectedDeck view = Some deck \<Longrightarrow> countsAgree deck"
  by (simp add: viewAgrees_def)

lemma handleCreateDeck_agrees:
  assumes "viewAgrees view"
  shows "viewAgrees (fst (handleCreateDeck user c name subj view st))"
proof (cases user)
  case None
  with assms show ?thesis by (simp add: handleCreateDeck_def)
next
  case (Some u)
  show ?thesis
  proof (cases "failure c")
    case None
    with assms Some show ?thesis
      by (simp add: handleCreateDeck_def insert_flashcard_deck_def viewAgrees_def
          countsAgree_def Let_def)
  next
    case (Some e)
    with assms \<open>user = Some u\<close> show ?thesis
      by (simp add: handleCreateDeck_def insert_flashcard_deck_def)
  qed
qed

lemma handleAddGeneratedFlashcards_agrees:
  assumes "viewAgrees view"
  shows "viewAgrees (fst (handleAddGeneratedFlashcards user c ci cd cu generated view st))"
proof (cases "selectedDeck view")
  case None
  with assms show ?thesis by (simp add: handleAddGeneratedFlashcards_def)
next
  case (Some sel)
  with assms have sel: "countsAgree sel" by (rule selected_agrees)
  have upd: "countsAgree (sel\<lparr>dk_totalCards := dk_totalCards sel + int (length xs),
                              dk_flashcards := dk_flashcards sel @ xs\<rparr>)" for xs
    using sel by (simp add: countsAgree_def)
  show ?thesis
  proof (cases "generated = [] \<or> user = None")
    case True
    with assms Some show ?thesis by (auto simp: handleAddGeneratedFlashcards_def)
  next
    case False
    obtain r st1 where ins: "insert_flashcards c
             (map (\<lambda>card. \<lparr> nc_deck_id = dk_id sel, nc_front = fst card, nc_back = snd card \<rparr>)
                generated) st = (r, st1)"
      by (cases "insert_flashcards c
             (map (\<lambda>card. \<lparr> nc_deck_id = dk_id sel, nc_front = fst card, nc_back = snd card \<rparr>)
                generated) st")
    show ?thesis
    proof (cases r)
      case (Error e)
      with assms Some False ins show ?thesis
        by (simp add: handleAddGeneratedFlashcards_def)
    next
      case (Data data)
      have "viewAgrees (fst (handleUpdateDeck ci cd cu
              (sel\<lparr>dk_totalCards := dk_totalCards sel
                       + int (length (map (\<lambda>card. \<lparr> fc_id = cr_id card, fc_front = cr_front card,
                                      fc_back = cr_back card, fc_subject = dk_subject sel \<rparr>) data)),
                    dk_flashcards := dk_flashcards sel
                       @ map (\<lambda>card. \<lparr> fc_id = cr_id card, fc_front = cr_front card,
                                      fc_back = cr_back card, fc_subject = dk_subject sel \<rparr>) data\<rparr>)
              view st1))"
        by (rule handleUpdateDeck_agrees [OF assms upd])
      with Some False ins Data show ?thesis
        by (auto simp: handleAddGeneratedFlashcards_def Let_def)
    qed
  qed
qed

lemma handleCreateFlashcard_agrees:
  assumes "viewAgrees view"
  shows "viewAgrees (fst (handleCreateFlashcard now ci cd cu front back view st))"
proof (cases "selectedDeck view")
  case None
  with assms show ?thesis by (simp add: handleCreateFlashcard_def)
next
  case (Some deck)
  with assms have "countsAgree deck" by (rule selected_agrees)
  then have "countsAgree (deck\<lparr>dk_totalCards := dk_totalCards deck + 1,
                               dk_flashcards := dk_flashcards deck @ [x]\<rparr>)" for x
    by (simp add: countsAgree_def)
  from handleUpdateDeck_agrees [OF assms this] assms Some show ?thesis
    by (simp add: handleCreateFlashcard_def Let_def)
qed

lemma handleDeleteFlashcard_agrees:
  assumes "viewAgrees view"
  shows "viewAgrees (fst (handleDeleteFlashcard ci cd cu cardId view st))"
proof (cases "selectedDeck view")
  case None
  with assms show ?thesis by (simp add: handleDeleteFlashcard_def)
next
  case (Some deck)
  have "countsAgree (deck\<lparr>dk_totalCards := int (length xs), dk_flashcards := xs\<rparr>)" for xs
    by (simp add: countsAgree_def)
  from handleUpdateDeck_agrees [OF assms this] Some show ?thesis
    by (simp add: handleDeleteFlashcard_def Let_def)
qed

lemma handleSaveEdit_agrees:
  assumes "viewAgrees view"
  shows "viewAgrees (fst (handleSaveEdit ci cd cu editCardId front back view st))"
proof (cases "selectedDeck view")
  case None
  with assms show ?thesis by (simp add: handleSaveEdit_def)
next
  case (Some deck)
  with assms have "countsAgree deck" by (rule selected_agrees)
  then have "countsAgree (deck\<lparr>dk_flashcards := map f (dk_flashcards deck)\<rparr>)" for f
    by (simp add: countsAgree_def)
  from handleUpdateDeck_agrees [OF assms this] assms Some show ?thesis
    by (simp add: handleSaveEdit_def Let_def split: option.split)
qed

lemma loadDecks_agree:
  "loadDecks cc st rows = Some ds \<Longrightarrow> list_all countsAgree ds"
proof (induction rows arbitrary: ds)
  case Nil
  then show ?case by simp
next
  case (Cons deck rest)
  then show ?case
    by (auto simp: countsAgree_def split: response.splits option.splits)
qed

lemma fetchDecks_agrees:
  assumes "viewAgrees view"
  shows "viewAgrees (fetchDecks user c cc view st)"
proof (cases user)
  case None
  with assms show ?thesis by (simp add: fetchDecks_def)
next
  case (Some u)
  show ?thesis
  proof (cases "select_flashcard_decks c u st")
    case (Error e)
    with assms Some show ?thesis by (simp add: fetchDecks_def)
  next
    case (Data decksData)
    show ?thesis
    proof (cases "loadDecks cc st decksData")
      case None
      with assms Some Data show ?thesis by (simp add: fetchDecks_def)
    next
      case (Some ds)
      then have all: "list_all countsAgree ds" by (rule loadDecks_agree)
      have "viewAgrees (view\<lparr>decks := ds,
            selectedDeck := (if ds \<noteq> [] \<and> selectedDeck view = None
                             then Some (hd ds) else selectedDeck view)\<rparr>)"
      proof (cases ds)
        case Nil
        with assms show ?thesis by (simp add: viewAgrees_def)
      next
        case (Cons d rest)
        with all assms show ?thesis by (simp add: viewAgrees_def)
      qed
      with \<open>user = Some u\<close> Data Some show ?thesis by (simp add: fetchDecks_def)
    qed
  qed
qed

lemma insert_flashcards_ok:
  assumes "failure c = None"
    and "list_all (\<lambda>n. nc_deck_id n \<in> set (map kr_id (flashcard_decks st))) cards"
  shows "\<exists>rows st'. insert_flashcards c cards st = (Data rows, st')
           \<and> length rows = length cards \<and> flashcard_decks st' = flashcard_decks st"
  using assms by (simp add: insert_flashcards_def Let_def arrive_def)

lemma handleUpdateDeck_fresh:
  assumes orig: "find (\<lambda>deck. dk_id deck = dk_id upd) (decks view) = Some orig"
    and empty: "dk_flashcards orig = []"
    and ok: "failure ci = None"
    and fk: "dk_id upd \<in> set (map kr_id (flashcard_decks st))"
  shows "fst (handleUpdateDeck ci cd cu upd view st) =
           view\<lparr>decks := map (\<lambda>deck. if dk_id deck = dk_id upd then upd else deck) (decks view),
                selectedDeck := Some upd\<rparr>"
proof (cases "dk_flashcards upd = []")
  case True
  with orig empty show ?thesis
    by (simp add: handleUpdateDeck_def Let_def)
next
  case False
  let ?cards = "map (\<lambda>card. \<lparr> nc_deck_id = dk_id upd, nc_front = fc_front card,
                               nc_back = fc_back card \<rparr>) (dk_flashcards upd)"
  have "list_all (\<lambda>n. nc_deck_id n \<in> set (map kr_id (flashcard_decks st))) ?cards"
    using fk by (simp add: list_all_iff)
  from insert_flashcards_ok [OF ok this]
  obtain rows st' where "insert_flashcards ci ?cards st = (Data rows, st')"
    by blast
  with orig empty False show ?thesis
    by (simp add: handleUpdateDeck_def Let_def)
qed

lemma create_then_add:
  assumes c0: "failure c0 = None" and c: "failure c = None" and ci: "failure ci = None"
    and created: "handleCreateDeck (Some u) c0 name subj view st = (v1, st1)"
  shows "\<exists>d. selectedDeck (fst (handleAddGeneratedFlashcards (Some u) c ci cd cu generated v1 st1))
               = Some d
           \<and> dk_totalCards d = int (length generated)
           \<and> length (dk_flashcards d) = length generated"
proof -
  define D where "D = \<lparr> dk_id = ServerId (next_id st), dk_name = name, dk_subject = subj,
                        dk_totalCards = 0, dk_flashcards = [] \<rparr>"
  from created c0 have v1: "v1 = view\<lparr>decks := D # decks view, selectedDeck := Some D\<rparr>"
    and fk: "dk_id D \<in> set (map kr_id (flashcard_decks st1))"
    by (auto simp: handleCreateDeck_def insert_flashcard_deck_def Let_def arrive_def D_def)
  show ?thesis
  proof (cases "generated = []")
    case True
    then show ?thesis
      by (simp add: handleAddGeneratedFlashcards_def v1 D_def)
  next
    case False
    let ?cards = "map (\<lambda>card. \<lparr> nc_deck_id = dk_id D, nc_front = fst card, nc_back = snd card \<rparr>)
                    generated"
    have "list_all (\<lambda>n. nc_deck_id n \<in> set (map kr_id (flashcard_decks st1))) ?cards"
      using fk by (simp add: list_all_iff)
    from insert_flashcards_ok [OF c this]
    obtain rows st2 where ins: "insert_flashcards c ?cards st1 = (Data rows, st2)"
      and len: "length rows = length generated"
      and decks2: "flashcard_decks st2 = flashcard_decks st1"
      by auto
    let ?upd = "D\<lparr>dk_totalCards := dk_totalCards D
                     + int (length (map (\<lambda>card. \<lparr> fc_id = cr_id card, fc_front = cr_front card,
                                      fc_back = cr_back card, fc_subject = dk_subject D \<rparr>) rows)),
                  dk_flashcards := dk_flashcards D
                     @ map (\<lambda>card. \<lparr> fc_id = cr_id card, fc_front = cr_front card,
                                      fc_back = cr_back card, fc_subject = dk_subject D \<rparr>) rows\<rparr>"
    have add: "handleAddGeneratedFlashcards (Some u) c ci cd cu generated v1 st1 =
               handleUpdateDeck ci cd cu ?upd v1 st2"
      using False ins by (simp add: handleAddGeneratedFlashcards_def v1 Let_def)
    have "fst (handleUpdateDeck ci cd cu ?upd v1 st2) =
           v1\<lparr>decks := map (\<lambda>deck. if dk_id deck = dk_id ?upd then ?upd else deck) (decks v1),
              selectedDeck := Some ?upd\<rparr>"
    proof (rule handleUpdateDeck_fresh [OF _ _ ci])
      show "find (\<lambda>deck. dk_id deck = dk_id ?upd) (decks v1) = Some D"
        by (simp add: v1)
      show "dk_flashcards D = []"
        by (simp add: D_def)
      show "dk_id ?upd \<in> set (map kr_id (flashcard_decks st2))"
        using fk decks2 by simp
    qed
    then have "selectedDeck (fst (handleAddGeneratedFlashcards (Some u) c ci cd cu generated v1 st1))
               = Some ?upd"
      unfolding add by simp
    moreover have "dk_totalCards ?upd = int (length generated)"
      "length (dk_flashcards ?upd) = length generated"
      using len by (simp_all add: D_def)
    ultimately show ?thesis by blast
  qed
qed

text \<open>
  On the page, creating a deck gives a deck with \<open>totalCards\<close> 0 and no cards, adding \<open>N\<close>
  generated cards to that deck gives \<open>totalCards = N\<close> and \<open>N\<close> cards, and every operation
  that changes a deck, whatever the store answers, keeps \<open>totalCards\<close> equal to the number
  of cards of every deck of the page and of the selected deck.
\<close>

lemma page_counts_the_cards:
  "(failure c0 = None \<longrightarrow>
      selectedDeck (fst (handleCreateDeck (Some u) c0 name subj view st)) =
        Some \<lparr> dk_id = ServerId (next_id st), dk_name = name, dk_subject = subj,
               dk_totalCards = 0, dk_flashcards = [] \<rparr>)
   \<and> (failure c0 = None \<and> failure c = None \<and> failure ci = None \<longrightarrow>
      (\<exists>d. selectedDeck
              (fst (handleAddGeneratedFlashcards (Some u) c ci cd cu generated
                      (fst (handleCreateDeck (Some u) c0 name subj view st))
                      (snd (handleCreateDeck (Some u) c0 name subj view st)))) = Some d
           \<and> dk_totalCards d = int (length generated)
           \<and> length (dk_flashcards d) = length generated))
   \<and> (viewAgrees view \<longrightarrow>
        viewAgrees (fst (handleCreateDeck user c name subj view st))
      \<and> viewAgrees (fst (handleAddGeneratedFlashcards user c ci cd cu generated view st))
      \<and> viewAgrees (fst (handleCreateFlashcard now ci cd cu front back view st))
      \<and> viewAgrees (fst (handleDeleteFlashcard ci cd cu cardId view st))
      \<and> viewAgrees (fst (handleSaveEdit ci cd cu editCardId front back view st))
      \<and> viewAgrees (fetchDecks user c cc view st))"
proof (intro conjI impI)
  assume "failure c0 = None"
  then show "selectedDeck (fst (handleCreateDeck (Some u) c0 name subj view st)) =
        Some \<lparr> dk_id = ServerId (next_id st), dk_name = name, dk_subject = subj,
               dk_totalCards = 0, dk_flashcards = [] \<rparr>"
    by (simp add: handleCreateDeck_def insert_flashcard_deck_def Let_def arrive_def)
next
  assume "failure c0 = None \<and> failure c = None \<and> failure ci = None"
  then show "\<exists>d. selectedDeck
              (fst (handleAddGeneratedFlashcards (Some u) c ci cd cu generated
                      (fst (handleCreateDeck (Some u) c0 name subj view st))
                      (snd (handleCreateDeck (Some u) c0 name subj view st)))) = Some d
           \<and> dk_totalCards d = int (length generated)
           \<and> length (dk_flashcards d) = length generated"
    using create_then_add [of c0 c ci u name subj view st
        "fst (handleCreateDeck (Some u) c0 name subj view st)"
        "snd (handleCreateDeck (Some u) c0 name subj view st)" cd cu generated]
    by simp
next
  assume v: "viewAgrees view"
  show "viewAgrees (fst (handleCreateDeck user c name subj view st))"
    by (rule handleCreateDeck_agrees [OF v])
  show "viewAgrees (fst (handleAddGeneratedFlashcards user c ci cd cu generated view st))"
    by (rule handleAddGeneratedFlashcards_agrees [OF v])
  show "viewAgrees (fst (handleCreateFlashcard now ci cd cu front back view st))"
    by (rule handleCreateFlashcard_agrees [OF v])
  show "viewAgrees (fst (handleDeleteFlashcard ci cd cu cardId view st))"
    by (rule handleDeleteFlashcard_agrees [OF v])
  show "viewAgrees (fst (handleSaveEdit ci cd cu editCardId front back view st))"
    by (rule handleSaveEdit_agrees [OF v])
  show "viewAgrees (fetchDecks user c cc view st)"
    by (rule fetchDecks_agrees [OF v])
qed

text \<open>
  Claim C8: a deck is created with no cards, and adding \<open>N\<close> generated cards to it gives
  \<open>totalCards = N\<close> and \<open>N\<close> cards. The code misses this in the store.
  \<open>handleAddGeneratedFlashcards\<close> inserts the generated cards and then calls
  \<open>handleUpdateDeck\<close>, which compares the new deck with the deck of the render, finds every
  generated card new, and inserts them all again. For two generated cards the page shows
  a deck of 2 cards with \<open>totalCards = 2\<close>, the store holds 4 cards of the deck, and the
  page loaded anew from the store shows \<open>totalCards = 4\<close> and 4 cards.
\<close>

theorem generated_cards_stored_twice:
  "map (\<lambda>d. (dk_id d, dk_totalCards d, length (dk_flashcards d))) (decks (fst cellsCreated)) =
     [(ServerId 1, 0, 0)]
   \<and> map (\<lambda>d. (dk_id d, dk_totalCards d, length (dk_flashcards d))) (decks (fst cellsAdded)) =
     [(ServerId 1, 2, 2)]
   \<and> map_option (\<lambda>d. (dk_id d, dk_totalCards d, length (dk_flashcards d)))
        (selectedDeck (fst cellsAdded)) = Some (ServerId 1, 2, 2)
   \<and> map (\<lambda>r. (cr_id r, cr_deck_id r, cr_front r, cr_back r)) (flashcards (snd cellsAdded)) =
     [(ServerId 2, ServerId 1, ''q1'', ''a1''), (ServerId 3, ServerId 1, ''q2'', ''a2''),
      (ServerId 4, ServerId 1, ''q1'', ''a1''), (ServerId 5, ServerId 1, ''q2'', ''a2'')]
   \<and> map (\<lambda>d. (dk_id d, dk_totalCards d, length (dk_flashcards d))) (decks cellsReloaded) =
     [(ServerId 1, 4, 4)]
   \<and> map_option (\<lambda>d. (dk_id d, dk_totalCards d, length (dk_flashcards d)))
        (selectedDeck cellsReloaded) = Some (ServerId 1, 4, 4)"
  by code_simp

section \<open>A question whose answer fails\<close>

text \<open>
  Claim C6 says that when the doubt and its first message are stored and the answering
  call then fails, both stay stored and an apology with sender \<open>ai\<close> is appended to the
  thread of the new doubt. They do stay stored, but the \<open>catch\<close> block reads the
  \<open>selectedDoubt\<close> of the render the handler started in. With no doubt selected before, no
  apology is stored at all: the thread of the new doubt, ServerId 1, holds the question
  only. With the doubt ServerId 1 selected before, the apology for the new doubt
  ServerId 4 is stored in the thread of ServerId 1, and the page selects that doubt and
  lists the doubts from before, without the new one.
\<close>

theorem apology_misses_the_new_doubt:
  "(case handleSubmitQuestion (Some ''u1'') ok ok (Failed ''timeout'') ok ok
           (emptyDoubtView\<lparr>newQuestion := ''Why is the sky blue?''\<rparr>) emptyStore of
      (view, st, events) \<Rightarrow>
        map dr_id (doubts st) = [ServerId 1]
        \<and> map (\<lambda>r. (mr_doubt_id r, mr_sender r)) (doubt_messages st) = [(ServerId 1, ''user'')]
        \<and> map_option (\<lambda>d. (d_id d, map m_sender (d_messages d))) (selectedDoubt view)
            = Some (ServerId 1, [''user'']))
   \<and> (case firstQuestion of
        (view1, st1, events1) \<Rightarrow>
          map_option d_id (selectedDoubt view1) = Some (ServerId 1)
          \<and> (case handleSubmitQuestion (Some ''u1'') ok ok (Failed ''timeout'') ok ok
                   (view1\<lparr>newQuestion := ''What is entropy?''\<rparr>) st1 of
               (view, st, events) \<Rightarrow>
                 map dr_id (doubts st) = [ServerId 1, ServerId 4]
                 \<and> map (\<lambda>r. (mr_doubt_id r, mr_sender r, mr_content r = errorMessage))
                       (doubt_messages st)
                     = [(ServerId 1, ''user'', False), (ServerId 1, ''ai'', False),
                        (ServerId 4, ''user'', False), (ServerId 1, ''ai'', True)]
                 \<and> map_option (\<lambda>d. (d_id d, map m_sender (d_messages d))) (selectedDoubt view)
                     = Some (ServerId 1, [''user'', ''ai'', ''ai''])
                 \<and> map d_id (view_doubts view) = map d_id (view_doubts view1)))"
  by code_simp

section \<open>The threads of the doubt solver\<close>

text \<open>
  Claim C7, as stated: once a doubt exists, its message sequence has at least one
  message. The doubt and its first message are two inserts; when the second fails the
  doubt stays in the store without a message, and loading gives it an empty thread.
\<close>

theorem doubt_without_message_counterexample:
  "(case handleSubmitQuestion (Some ''u1'') ok noService (Answer ''Rayleigh scattering'') ok ok
           (emptyDoubtView\<lparr>newQuestion := ''Why is the sky blue?''\<rparr>) emptyStore of
      (view, st, events) \<Rightarrow>
        map dr_id (doubts st) = [ServerId 1]
        \<and> doubt_messages st = []
        \<and> map (\<lambda>d. (d_id d, length (d_messages d)))
              (view_doubts (fetchDoubts (Some ''u1'') ok (\<lambda>i. ok) emptyDoubtView st))
            = [(ServerId 1, 0)])"
  by code_simp

lemma inOrder_later: "inOrder t d \<Longrightarrow> t \<le> t' \<Longrightarrow> inOrder t' d"
  by (auto simp: inOrder_def list_all_iff)

lemma inOrder_all_later: "list_all (inOrder t) ds \<Longrightarrow> t \<le> t' \<Longrightarrow> list_all (inOrder t') ds"
  by (auto simp: list_all_iff intro: inOrder_later)

lemma viewOrdered_later: "viewOrdered t view \<Longrightarrow> t \<le> t' \<Longrightarrow> viewOrdered t' view"
  by (auto simp: viewOrdered_def split: option.splits intro: inOrder_later inOrder_all_later)

lemma inOrder_append:
  assumes "inOrder t d" and "t \<le> m_timestamp m"
  shows "inOrder (m_timestamp m) (d\<lparr>d_messages := d_messages d @ [m]\<rparr>)"
  using assms by (auto simp: inOrder_def list_all_iff sorted_append)

lemma inOrder_replace:
  "list_all (inOrder t) ds \<Longrightarrow> inOrder t d \<Longrightarrow> list_all (inOrder t) (replaceDoubt d ds)"
  by (induction ds) (simp_all add: replaceDoubt_def)

lemma insert_doubt_message_cases:
  obtains (failed) e where "insert_doubt_message c i x s st = (Error e, st)"
  | (stored) row st' where "insert_doubt_message c i x s st = (Data row, st')"
      and "mr_timestamp row = clock st'" and "clock st \<le> clock st'"
      and "doubt_messages st' = doubt_messages st @ [row]"
      and "mr_doubt_id row = i" and "mr_sender row = s" and "mr_content row = x"
      and "doubts st' = doubts st"
proof (cases "failure c")
  case (Some e)
  then have "insert_doubt_message c i x s st = (Error e, st)"
    by (simp add: insert_doubt_message_def)
  then show ?thesis by (rule failed)
next
  case None
  show ?thesis
  proof (cases "i \<in> set (map dr_id (doubts st))")
    case False
    with None have "insert_doubt_message c i x s st =
        (Error ''violates foreign key constraint doubt_messages_doubt_id_fkey'', st)"
      by (simp add: insert_doubt_message_def)
    then show ?thesis by (rule failed)
  next
    case True
    let ?st1 = "arrive c st"
    let ?row = "\<lparr> mr_id = ServerId (next_id ?st1), mr_doubt_id = i, mr_content = x,
                  mr_sender = s, mr_timestamp = clock ?st1 \<rparr>"
    let ?st' = "?st1\<lparr>next_id := Suc (next_id ?st1), doubt_messages := doubt_messages ?st1 @ [?row]\<rparr>"
    from None True have "insert_doubt_message c i x s st = (Data ?row, ?st')"
      by (simp add: insert_doubt_message_def Let_def)
    then show ?thesis
      by (rule stored) (simp_all add: arrive_def)
  qed
qed

lemma insert_doubt_cases:
  obtains (failed) e where "insert_doubt c q u s st = (Error e, st)"
  | (stored) row st' where "insert_doubt c q u s st = (Data row, st')"
      and "clock st \<le> clock st'" and "doubt_messages st' = doubt_messages st"
      and "dr_id row = ServerId (next_id st)" and "doubts st' = doubts st @ [row]"
proof (cases "failure c")
  case (Some e)
  then have "insert_doubt c q u s st = (Error e, st)"
    by (simp add: insert_doubt_def)
  then show ?thesis by (rule failed)
next
  case None
  let ?st1 = "arrive c st"
  let ?row = "\<lparr> dr_id = ServerId (next_id ?st1), dr_question = q, dr_solved = False,
                dr_subject = s, dr_timestamp = clock ?st1, dr_user_id = u \<rparr>"
  let ?st' = "?st1\<lparr>next_id := Suc (next_id ?st1), doubts := doubts ?st1 @ [?row]\<rparr>"
  from None have "insert_doubt c q u s st = (Data ?row, ?st')"
    by (simp add: insert_doubt_def Let_def)
  then show ?thesis
    by (rule stored) (simp_all add: arrive_def)
qed

lemma storeTimely_message:
  assumes "storeTimely st" and "clock st \<le> clock st'"
    and "doubt_messages st' = doubt_messages st @ [row]" and "mr_timestamp row = clock st'"
  shows "storeTimely st'"
  using assms by (auto simp: storeTimely_def list_all_iff)

lemma storeTimely_same:
  assumes "storeTimely st" and "clock st \<le> clock st'"
    and "doubt_messages st' = doubt_messages st"
  shows "storeTimely st'"
  using assms by (auto simp: storeTimely_def list_all_iff)

lemma apologise_ordered:
  assumes view: "viewOrdered (clock st) view"
    and pending: "viewOrdered (clock st) pending"
    and timely: "storeTimely st"
  shows "threadsOrdered (fst (apologise c view pending st)) (fst (snd (apologise c view pending st)))"
proof (cases "selectedDoubt view")
  case None
  with pending timely show ?thesis
    by (simp add: apologise_def threadsOrdered_def viewOrdered_def)
next
  case (Some sel)
  from view Some have sel: "inOrder (clock st) sel"
    by (simp add: viewOrdered_def)
  from view have all: "list_all (inOrder (clock st)) (view_doubts view)"
    by (simp add: viewOrdered_def)
  show ?thesis
  proof (cases c "d_id sel" errorMessage "''ai''" st rule: insert_doubt_message_cases)
    case (failed e)
    with Some pending timely show ?thesis
      by (simp add: apologise_def threadsOrdered_def viewOrdered_def)
  next
    case (stored row st')
    let ?upd = "sel\<lparr>d_messages := d_messages sel @ [toMessage row]\<rparr>"
    have ts: "m_timestamp (toMessage row) = clock st'"
      using stored(2) by (simp add: toMessage_def)
    have "inOrder (m_timestamp (toMessage row)) ?upd"
      by (rule inOrder_append [OF sel]) (simp add: ts stored(3))
    then have upd: "inOrder (clock st') ?upd"
      by (simp add: ts)
    have all': "list_all (inOrder (clock st')) (replaceDoubt ?upd (view_doubts view))"
      by (rule inOrder_replace [OF inOrder_all_later [OF all stored(3)] upd])
    have "storeTimely st'"
      by (rule storeTimely_message [OF timely stored(3,4,2)])
    with Some stored(1) upd all' show ?thesis
      by (simp add: apologise_def threadsOrdered_def viewOrdered_def Let_def)
  qed
qed

lemma threadsOrdered_parts:
  "threadsOrdered view st \<Longrightarrow> viewOrdered (clock st) view"
  "threadsOrdered view st \<Longrightarrow> storeTimely st"
  by (simp_all add: threadsOrdered_def)

lemma handleSubmitQuestion_ordered:
  assumes inv: "threadsOrdered view st"
  shows "threadsOrdered (fst (handleSubmitQuestion user c1 c2 ai c3 c4 view st))
           (fst (snd (handleSubmitQuestion user c1 c2 ai c3 c4 view st)))"
proof (cases user)
  case None
  with inv show ?thesis by (simp add: handleSubmitQuestion_def)
next
  case (Some u)
  note v0 = threadsOrdered_parts(1) [OF inv] and t0 = threadsOrdered_parts(2) [OF inv]
  show ?thesis
  proof (cases "trim (newQuestion view) = []")
    case True
    with inv Some show ?thesis by (simp add: handleSubmitQuestion_def)
  next
    case False
    show ?thesis
    proof (cases c1 "newQuestion view" u "''General''" st rule: insert_doubt_cases)
      case (failed e)
      with Some False apologise_ordered [OF v0 v0 t0, of c4] show ?thesis
        by (simp add: handleSubmitQuestion_def)
    next
      case d: (stored doubtData st1)
      have v1: "viewOrdered (clock st1) view"
        by (rule viewOrdered_later [OF v0 d(2)])
      have t1: "storeTimely st1"
        by (rule storeTimely_same [OF t0 d(2,3)])
      show ?thesis
      proof (cases c2 "dr_id doubtData" "newQuestion view" "''user''" st1
          rule: insert_doubt_message_cases)
        case (failed e)
        with Some False d(1) apologise_ordered [OF v1 v1 t1, of c4] show ?thesis
          by (simp add: handleSubmitQuestion_def)
      next
        case m: (stored messageData st2)
        let ?newDoubt = "\<lparr> d_id = dr_id doubtData, d_question = dr_question doubtData,
                            d_timestamp = dr_timestamp doubtData, d_solved = dr_solved doubtData,
                            d_subject = dr_subject doubtData,
                            d_messages = [toMessage messageData] \<rparr>"
        let ?asked = "view\<lparr>view_doubts := ?newDoubt # view_doubts view,
                          selectedDoubt := Some ?newDoubt,
                          newQuestion := [], isGenerating := True\<rparr>"
        have v2: "viewOrdered (clock st2) view"
          by (rule viewOrdered_later [OF v1 m(3)])
        have t2: "storeTimely st2"
          by (rule storeTimely_message [OF t1 m(3,4,2)])
        have nd: "inOrder (clock st2) ?newDoubt"
          using m(2) by (simp add: inOrder_def toMessage_def)
        have a2: "viewOrdered (clock st2) ?asked"
          using v2 nd by (simp add: viewOrdered_def)
        show ?thesis
        proof (cases ai)
          case (Failed e)
          with Some False d(1) m(1) apologise_ordered [OF v2 a2 t2, of c4] show ?thesis
            by (simp add: handleSubmitQuestion_def Let_def)
        next
          case (Answer answer)
          show ?thesis
          proof (cases c3 "dr_id doubtData" answer "''ai''" st2 rule: insert_doubt_message_cases)
            case (failed e)
            with Some False d(1) m(1) Answer apologise_ordered [OF v2 a2 t2, of c4] show ?thesis
              by (simp add: handleSubmitQuestion_def Let_def)
          next
            case a: (stored aiMessageData st3)
            let ?upd = "?newDoubt\<lparr>d_messages := d_messages ?newDoubt @ [toMessage aiMessageData]\<rparr>"
            have ts: "m_timestamp (toMessage aiMessageData) = clock st3"
              using a(2) by (simp add: toMessage_def)
            have "inOrder (m_timestamp (toMessage aiMessageData)) ?upd"
              by (rule inOrder_append [OF nd]) (simp add: ts a(3))
            then have upd: "inOrder (clock st3) ?upd"
              by (simp add: ts)
            have all: "list_all (inOrder (clock st3)) (replaceDoubt ?upd (view_doubts view))"
            proof (rule inOrder_replace [OF _ upd])
              from v2 have "list_all (inOrder (clock st2)) (view_doubts view)"
                by (simp add: viewOrdered_def)
              then show "list_all (inOrder (clock st3)) (view_doubts view)"
                by (rule inOrder_all_later [OF _ a(3)])
            qed
            have t3: "storeTimely st3"
              by (rule storeTimely_message [OF t2 a(3,4,2)])
            from Some False d(1) m(1) Answer a(1) upd all t3 show ?thesis
              by (simp add: handleSubmitQuestion_def Let_def threadsOrdered_def viewOrdered_def)
          qed
        qed
      qed
    qed
  qed
qed

lemma handleSendMessage_ordered:
  assumes inv: "threadsOrdered view st"
  shows "threadsOrdered (fst (handleSendMessage user c1 ai c2 c3 view st))
           (fst (snd (handleSendMessage user c1 ai c2 c3 view st)))"
proof (cases "selectedDoubt view")
  case None
  with inv show ?thesis by (simp add: handleSendMessage_def)
next
  case (Some sel)
  note v0 = threadsOrdered_parts(1) [OF inv] and t0 = threadsOrdered_parts(2) [OF inv]
  from v0 Some have sel: "inOrder (clock st) sel"
    by (simp add: viewOrdered_def)
  from v0 have all0: "list_all (inOrder (clock st)) (view_doubts view)"
    by (simp add: viewOrdered_def)
  show ?thesis
  proof (cases "trim (newMessage view) = [] \<or> user = None")
    case True
    with inv Some show ?thesis by (auto simp: handleSendMessage_def)
  next
    case False
    show ?thesis
    proof (cases c1 "d_id sel" "newMessage view" "''user''" st rule: insert_doubt_message_cases)
      case (failed e)
      with Some False apologise_ordered [OF v0 v0 t0, of c3] show ?thesis
        by (auto simp: handleSendMessage_def)
    next
      case m: (stored messageData st1)
      let ?upd = "sel\<lparr>d_messages := d_messages sel @ [toMessage messageData]\<rparr>"
      let ?sent = "view\<lparr>view_doubts := replaceDoubt ?upd (view_doubts view),
                         selectedDoubt := Some ?upd,
                         newMessage := [], isGenerating := True\<rparr>"
      have ts: "m_timestamp (toMessage messageData) = clock st1"
        using m(2) by (simp add: toMessage_def)
      have "inOrder (m_timestamp (toMessage messageData)) ?upd"
        by (rule inOrder_append [OF sel]) (simp add: ts m(3))
      then have upd: "inOrder (clock st1) ?upd"
        by (simp add: ts)
      have all1: "list_all (inOrder (clock st1)) (view_doubts view)"
        by (rule inOrder_all_later [OF all0 m(3)])
      have v1: "viewOrdered (clock st1) view"
        by (rule viewOrdered_later [OF v0 m(3)])
      have s1: "viewOrdered (clock st1) ?sent"
        using upd inOrder_replace [OF all1 upd] by (simp add: viewOrdered_def)
      have t1: "storeTimely st1"
        by (rule storeTimely_message [OF t0 m(3,4,2)])
      show ?thesis
      proof (cases ai)
        case (Failed e)
        with Some False m(1) apologise_ordered [OF v1 s1 t1, of c3] show ?thesis
          by (auto simp: handleSendMessage_def Let_def)
      next
        case (Answer answer)
        show ?thesis
        proof (cases c2 "d_id sel" answer "''ai''" st1 rule: insert_doubt_message_cases)
          case (failed e)
          with Some False m(1) Answer apologise_ordered [OF v1 s1 t1, of c3] show ?thesis
            by (auto simp: handleSendMessage_def Let_def)
        next
          case a: (stored aiMessageData st2)
          let ?final = "?upd\<lparr>d_messages := d_messages ?upd @ [toMessage aiMessageData]\<rparr>"
          have ts2: "m_timestamp (toMessage aiMessageData) = clock st2"
            using a(2) by (simp add: toMessage_def)
          have "inOrder (m_timestamp (toMessage aiMessageData)) ?final"
            by (rule inOrder_append [OF upd]) (simp add: ts2 a(3))
          then have fin: "inOrder (clock st2) ?final"
            by (simp add: ts2)
          have all2: "list_all (inOrder (clock st2)) (replaceDoubt ?final (view_doubts view))"
            by (rule inOrder_replace [OF inOrder_all_later [OF all1 a(3)] fin])
          have t2: "storeTimely st2"
            by (rule storeTimely_message [OF t1 a(3,4,2)])
          from Some False m(1) Answer a(1) fin all2 t2 show ?thesis
            by (auto simp: handleSendMessage_def Let_def threadsOrdered_def viewOrdered_def)
        qed
      qed
    qed
  qed
qed

lemma markAsSolved_ordered:
  assumes inv: "threadsOrdered view st"
  shows "threadsOrdered (fst (markAsSolved c i view st)) (fst (snd (markAsSolved c i view st)))"
proof (cases "failure c")
  case (Some e)
  with inv show ?thesis
    by (simp add: markAsSolved_def update_doubt_solved_def)
next
  case None
  have solved: "inOrder t (d\<lparr>d_solved := True\<rparr>) = inOrder t d" for t d
    by (simp add: inOrder_def)
  have "list_all (inOrder t) (map (\<lambda>doubt. if d_id doubt = i then doubt\<lparr>d_solved := True\<rparr> else doubt) ds)"
    if "list_all (inOrder t) ds" for t ds
    using that by (induction ds) (simp_all add: solved)
  moreover have "storeTimely ((arrive c st)\<lparr>doubts := ds\<rparr>)" for ds
    using threadsOrdered_parts(2) [OF inv]
    by (auto simp: storeTimely_def arrive_def list_all_iff)
  moreover have "viewOrdered (clock st + elapsed c) view"
    by (rule viewOrdered_later [OF threadsOrdered_parts(1) [OF inv]]) simp
  ultimately show ?thesis
    using None
    by (auto simp: markAsSolved_def update_doubt_solved_def threadsOrdered_def viewOrdered_def
        arrive_def solved split: option.splits)
qed

lemma loadDoubts_sorted:
  "loadDoubts cm st rows = Some ds \<Longrightarrow>
   list_all (\<lambda>d. sorted (map m_timestamp (d_messages d))) ds"
proof (induction rows arbitrary: ds)
  case Nil
  then show ?case by simp
next
  case (Cons doubt rest)
  have "m_timestamp \<circ> toMessage = mr_timestamp"
    by (rule ext) (simp add: toMessage_def)
  with Cons show ?case
    by (auto simp: select_doubt_messages_def split: response.splits option.splits)
qed

lemma loadDoubts_ordered:
  "storeTimely st \<Longrightarrow> loadDoubts cm st rows = Some ds \<Longrightarrow> list_all (inOrder (clock st)) ds"
proof (induction rows arbitrary: ds)
  case Nil
  then show ?case by simp
next
  case (Cons doubt rest)
  have ts: "m_timestamp \<circ> toMessage = mr_timestamp"
    by (rule ext) (simp add: toMessage_def)
  have up: "list_all (\<lambda>m. m_timestamp m \<le> clock st)
             (map toMessage (sort_key mr_timestamp (filter P (doubt_messages st))))" for P
    using Cons.prems(1) by (auto simp: storeTimely_def list_all_iff toMessage_def)
  from Cons show ?case
    using up ts
    by (auto simp: inOrder_def select_doubt_messages_def split: response.splits option.splits)
qed

lemma fetchDoubts_ordered:
  assumes inv: "threadsOrdered view st"
  shows "threadsOrdered (fetchDoubts user c cm view st) st"
proof (cases user)
  case None
  with inv show ?thesis by (simp add: fetchDoubts_def)
next
  case (Some u)
  show ?thesis
  proof (cases "select_doubts c u st")
    case (Error e)
    with inv Some show ?thesis by (simp add: fetchDoubts_def)
  next
    case (Data doubtsData)
    show ?thesis
    proof (cases "loadDoubts cm st doubtsData")
      case None
      with inv Some Data show ?thesis by (simp add: fetchDoubts_def)
    next
      case (Some ds)
      have all: "list_all (inOrder (clock st)) ds"
        by (rule loadDoubts_ordered [OF threadsOrdered_parts(2) [OF inv] Some])
      have "viewOrdered (clock st)
              (view\<lparr>view_doubts := ds,
                    selectedDoubt := (if ds \<noteq> [] \<and> selectedDoubt view = None
                                      then Some (hd ds) else selectedDoubt view)\<rparr>)"
      proof (cases ds)
        case Nil
        with threadsOrdered_parts(1) [OF inv] show ?thesis by (simp add: viewOrdered_def)
      next
        case (Cons d rest)
        with all threadsOrdered_parts(1) [OF inv] show ?thesis by (simp add: viewOrdered_def)
      qed
      with \<open>user = Some u\<close> Data Some threadsOrdered_parts(2) [OF inv] show ?thesis
        by (simp add: fetchDoubts_def threadsOrdered_def)
    qed
  qed
qed

lemma insert_doubt_ok:
  assumes "failure c = None"
  shows "\<exists>row st'. insert_doubt c q u s st = (Data row, st')
           \<and> dr_id row = ServerId (next_id st) \<and> doubts st' = doubts st @ [row]
           \<and> doubt_messages st' = doubt_messages st"
  using assms by (simp add: insert_doubt_def Let_def arrive_def)

lemma insert_doubt_message_ok:
  assumes "failure c = None" and "i \<in> set (map dr_id (doubts st))"
  shows "\<exists>row st'. insert_doubt_message c i x s st = (Data row, st')
           \<and> mr_doubt_id row = i \<and> mr_sender row = s \<and> mr_content row = x
           \<and> doubts st' = doubts st \<and> doubt_messages st' = doubt_messages st @ [row]"
  using assms by (simp add: insert_doubt_message_def Let_def arrive_def)

lemma insert_doubt_message_grows:
  "doubts (snd (insert_doubt_message c i x s st)) = doubts st
   \<and> set (doubt_messages st) \<subseteq> set (doubt_messages (snd (insert_doubt_message c i x s st)))"
  by (cases c i x s st rule: insert_doubt_message_cases) auto

lemma apologise_grows:
  "doubts (fst (snd (apologise c view pending st))) = doubts st
   \<and> set (doubt_messages st) \<subseteq> set (doubt_messages (fst (snd (apologise c view pending st))))"
proof (cases "selectedDoubt view")
  case None
  then show ?thesis by (simp add: apologise_def)
next
  case (Some sel)
  obtain r st' where ins: "insert_doubt_message c (d_id sel) errorMessage ''ai'' st = (r, st')"
    by (rule prod.exhaust)
  from insert_doubt_message_grows [of c "d_id sel" errorMessage "''ai''" st] ins
  have g: "doubts st' = doubts st" "set (doubt_messages st) \<subseteq> set (doubt_messages st')"
    by simp_all
  from Some ins g show ?thesis
    by (cases r) (simp_all add: apologise_def Let_def)
qed

lemma created_doubt_has_question:
  assumes c1: "failure c1 = None" and c2: "failure c2 = None"
    and q: "trim (newQuestion view) \<noteq> []"
  shows "ServerId (next_id st)
           \<in> set (map dr_id (doubts (fst (snd (handleSubmitQuestion (Some u) c1 c2 ai c3 c4 view st)))))
       \<and> (\<exists>r\<in>set (doubt_messages (fst (snd (handleSubmitQuestion (Some u) c1 c2 ai c3 c4 view st)))).
             mr_doubt_id r = ServerId (next_id st) \<and> mr_sender r = ''user''
             \<and> mr_content r = newQuestion view)"
proof -
  from insert_doubt_ok [OF c1, of "newQuestion view" u "''General''" st]
  obtain doubtData st1 where d: "insert_doubt c1 (newQuestion view) u ''General'' st = (Data doubtData, st1)"
    and did: "dr_id doubtData = ServerId (next_id st)"
    and d1: "doubts st1 = doubts st @ [doubtData]"
    by blast
  have "dr_id doubtData \<in> set (map dr_id (doubts st1))"
    by (simp add: d1)
  from insert_doubt_message_ok [OF c2 this, of "newQuestion view" "''user''"]
  obtain messageData st2 where m:
      "insert_doubt_message c2 (dr_id doubtData) (newQuestion view) ''user'' st1 = (Data messageData, st2)"
    and row: "mr_doubt_id messageData = dr_id doubtData" "mr_sender messageData = ''user''"
      "mr_content messageData = newQuestion view"
    and d2: "doubts st2 = doubts st1"
    and m2: "doubt_messages st2 = doubt_messages st1 @ [messageData]"
    by blast
  let ?final = "fst (snd (handleSubmitQuestion (Some u) c1 c2 ai c3 c4 view st))"
  have grows: "doubts ?final = doubts st2 \<and> set (doubt_messages st2) \<subseteq> set (doubt_messages ?final)"
  proof (cases ai)
    case (Failed e)
    with q d m show ?thesis
      by (simp add: handleSubmitQuestion_def Let_def apologise_grows)
  next
    case (Answer answer)
    obtain r st3 where a: "insert_doubt_message c3 (dr_id doubtData) answer ''ai'' st2 = (r, st3)"
      by (rule prod.exhaust)
    from insert_doubt_message_grows [of c3 "dr_id doubtData" answer "''ai''" st2] a
    have g3: "doubts st3 = doubts st2" "set (doubt_messages st2) \<subseteq> set (doubt_messages st3)"
      by simp_all
    show ?thesis
    proof (cases r)
      case (Error e)
      with q d m Answer a g3 apologise_grows [of c4 view _ st3] show ?thesis
        by (auto simp: handleSubmitQuestion_def Let_def)
    next
      case (Data aiMessageData)
      with q d m Answer a g3 show ?thesis
        by (simp add: handleSubmitQuestion_def Let_def)
    qed
  qed
  have "messageData \<in> set (doubt_messages ?final)"
    using grows m2 by auto
  with row did have "\<exists>r\<in>set (doubt_messages ?final).
             mr_doubt_id r = ServerId (next_id st) \<and> mr_sender r = ''user''
             \<and> mr_content r = newQuestion view"
    by auto
  moreover have "ServerId (next_id st) \<in> set (map dr_id (doubts ?final))"
    using grows d2 d1 did by simp
  ultimately show ?thesis by blast
qed

text \<open>
  Claim C7, amended: every thread the doubt solver holds has time stamps that do not
  decrease. Loading reads each thread in the order of its time stamps, and a state that
  is in order with the store stays so under loading, asking a question, sending a message
  and marking a doubt solved, whatever the store and the answering function do (the
  server clock does not run backwards). A doubt whose two creating inserts both succeed
  has its question, sent by \<open>user\<close>, among its stored messages, so at least one message.
\<close>

theorem threads_in_timestamp_order:
  "(threadsOrdered view st \<longrightarrow>
      threadsOrdered (fetchDoubts user c cm view st) st
      \<and> threadsOrdered (fst (handleSubmitQuestion user c1 c2 ai c3 c4 view st))
          (fst (snd (handleSubmitQuestion user c1 c2 ai c3 c4 view st)))
      \<and> threadsOrdered (fst (handleSendMessage user c1 ai c2 c3 view st))
          (fst (snd (handleSendMessage user c1 ai c2 c3 view st)))
      \<and> threadsOrdered (fst (markAsSolved c i view st)) (fst (snd (markAsSolved c i view st)))
      \<and> list_all (\<lambda>d. sorted (map m_timestamp (d_messages d))) (view_doubts view)
      \<and> (\<forall>d. selectedDoubt view = Some d \<longrightarrow> sorted (map m_timestamp (d_messages d))))
   \<and> (\<forall>ds. loadDoubts cm st rows = Some ds \<longrightarrow>
         list_all (\<lambda>d. sorted (map m_timestamp (d_messages d))) ds)
   \<and> (failure c1 = None \<and> failure c2 = None \<and> trim (newQuestion view) \<noteq> [] \<longrightarrow>
        ServerId (next_id st)
          \<in> set (map dr_id (doubts (fst (snd (handleSubmitQuestion (Some u) c1 c2 ai c3 c4 view st)))))
        \<and> (\<exists>r\<in>set (doubt_messages (fst (snd (handleSubmitQuestion (Some u) c1 c2 ai c3 c4 view st)))).
              mr_doubt_id r = ServerId (next_id st) \<and> mr_sender r = ''user''
              \<and> mr_content r = newQuestion view))"
proof (intro conjI impI allI)
  assume inv: "threadsOrdered view st"
  show "threadsOrdered (fetchDoubts user c cm view st) st"
    by (rule fetchDoubts_ordered [OF inv])
  show "threadsOrdered (fst (handleSubmitQuestion user c1 c2 ai c3 c4 view st))
          (fst (snd (handleSubmitQuestion user c1 c2 ai c3 c4 view st)))"
    by (rule handleSubmitQuestion_ordered [OF inv])
  show "threadsOrdered (fst (handleSendMessage user c1 ai c2 c3 view st))
          (fst (snd (handleSendMessage user c1 ai c2 c3 view st)))"
    by (rule handleSendMessage_ordered [OF inv])
  show "threadsOrdered (fst (markAsSolved c i view st)) (fst (snd (markAsSolved c i view st)))"
    by (rule markAsSolved_ordered [OF inv])
  show "list_all (\<lambda>d. sorted (map m_timestamp (d_messages d))) (view_doubts view)"
    using threadsOrdered_parts(1) [OF inv]
    by (simp add: viewOrdered_def inOrder_def list_all_iff)
  show "sorted (map m_timestamp (d_messages d))" if "selectedDoubt view = Some d" for d
    using threadsOrdered_parts(1) [OF inv] that
    by (simp add: viewOrdered_def inOrder_def)
next
  fix ds assume "loadDoubts cm st rows = Some ds"
  then show "list_all (\<lambda>d. sorted (map m_timestamp (d_messages d))) ds"
    by (rule loadDoubts_sorted)
next
  assume h: "failure c1 = None \<and> failure c2 = None \<and> trim (newQuestion view) \<noteq> []"
  from h have "failure c1 = None" "failure c2 = None" "trim (newQuestion view) \<noteq> []"
    by simp_all
  from created_doubt_has_question [OF this, of st u ai c3 c4]
  show "ServerId (next_id st)
          \<in> set (map dr_id (doubts (fst (snd (handleSubmitQuestion (Some u) c1 c2 ai c3 c4 view st)))))"
    and "\<exists>r\<in>set (doubt_messages (fst (snd (handleSubmitQuestion (Some u) c1 c2 ai c3 c4 view st)))).
              mr_doubt_id r = ServerId (next_id st) \<and> mr_sender r = ''user''
              \<and> mr_content r = newQuestion view"
    by (rule conjunct1, rule conjunct2)
qed

theorem threads_in_timestamp_order_witness:
  "threadsOrdered (emptyDoubtView\<lparr>newQuestion := ''Why is the sky blue?''\<rparr>) emptyStore
   \<and> failure ok = None
   \<and> trim ''Why is the sky blue?'' \<noteq> []
   \<and> threadsOrdered (fst firstQuestion) (fst (snd firstQuestion))
   \<and> map_option (\<lambda>d. map m_timestamp (d_messages d)) (selectedDoubt (fst firstQuestion))
       = Some [2, 3]
   \<and> ServerId 1 \<in> set (map dr_id (doubts (fst (snd firstQuestion))))"
proof -
  let ?view = "emptyDoubtView\<lparr>newQuestion := ''Why is the sky blue?''\<rparr>"
  have inv: "threadsOrdered ?view emptyStore"
    by code_simp
  have q: "trim ''Why is the sky blue?'' \<noteq> []"
    by code_simp
  have q': "trim (newQuestion ?view) \<noteq> []"
    using q by simp
  have n: "next_id emptyStore = 1"
    by (simp add: emptyStore_def)
  have sel: "map_option (\<lambda>d. map m_timestamp (d_messages d)) (selectedDoubt (fst firstQuestion))
       = Some [2, 3]"
    by code_simp
  note t = threads_in_timestamp_order [where view = ?view and st = emptyStore
      and user = "Some ''u1''" and ?c1.0 = ok and ?c2.0 = ok
      and ai = "Answer ''Rayleigh scattering''" and ?c3.0 = ok and ?c4.0 = ok and u = "''u1''"]
  from t inv have a: "threadsOrdered (fst firstQuestion) (fst (snd firstQuestion))"
    unfolding firstQuestion_def by blast
  from t ok_succeeds q' have b: "ServerId (next_id emptyStore) \<in> set (map dr_id (doubts (fst (snd firstQuestion))))"
    unfolding firstQuestion_def by blast
  from inv ok_succeeds q a sel b show ?thesis
    unfolding n by blast
qed

section \<open>The reply of the flashcard generation function\<close>

lemma collectCards_shape:
  "collectCards secs =
     map (\<lambda>sec. (trim (parts sec ! 0), trim (parts sec ! 1)))
       (filter (\<lambda>sec. 2 \<le> length (parts sec)) secs)"
proof (induction secs)
  case Nil
  show ?case by simp
next
  case (Cons sec rest)
  show ?case
  proof (cases "parts sec")
    case Nil
    with Cons show ?thesis by simp
  next
    case (Cons p0 ps)
    note outer = this
    show ?thesis
    proof (cases ps)
      case Nil
      with outer Cons.IH show ?thesis by simp
    next
      case (Cons p1 ps')
      with outer Cons.IH show ?thesis by simp
    qed
  qed
qed

lemma fallbackCards_empty:
  "fallbackCards text = [] \<longleftrightarrow> \<not> list_ex (\<lambda>sec. 2 \<le> length (parts sec)) (sections text)"
  by (simp add: fallbackCards_def collectCards_shape list_ex_iff filter_empty_conv)

text \<open>
  Claim C5, as stated: when neither the structured reading nor the sections give a card,
  the function returns an error. For the generated text \<open>[]\<close> the structured reading
  succeeds with no card and the sections give none, and the function returns the empty
  list of flashcards, not an error.
\<close>

theorem empty_array_is_no_error_counterexample:
  "structured JSON_parse (jsonString ''[]'') = Some []
   \<and> fallbackCards ''[]'' = []
   \<and> generateFlashcards ''[]'' = Reply200 []"
  by code_simp

text \<open>
  Claim C5, amended: when the structured reading fails (the text between the first \<open>[\<close>
  and the last \<open>]\<close> is not an array whose elements all have a front and a back) and some
  section splits into at least two parts, the function returns the non-empty list of the
  cards made from those sections, the first two parts of each, trimmed; when the
  structured reading fails and no section does, it returns the error; it returns an error
  in no other case; and when the structured reading succeeds it returns the array read,
  which may be empty.
\<close>

theorem fallback_then_error:
  "(structured parse (jsonString text) = None
      \<and> list_ex (\<lambda>sec. 2 \<le> length (parts sec)) (sections text) \<longrightarrow>
        fallbackCards text \<noteq> []
        \<and> respond parse text = Reply200 (map cardJson (fallbackCards text)))
   \<and> (structured parse (jsonString text) = None
      \<and> \<not> list_ex (\<lambda>sec. 2 \<le> length (parts sec)) (sections text) \<longrightarrow>
        respond parse text = ReplyError 422 ''Failed to parse flashcards from AI response'')
   \<and> ((\<exists>code msg. respond parse text = ReplyError code msg) \<longrightarrow>
        structured parse (jsonString text) = None \<and> fallbackCards text = [])
   \<and> (\<forall>cards. structured parse (jsonString text) = Some cards \<longrightarrow>
        respond parse text = Reply200 cards)
   \<and> fallbackCards text =
        map (\<lambda>sec. (trim (parts sec ! 0), trim (parts sec ! 1)))
          (filter (\<lambda>sec. 2 \<le> length (parts sec)) (sections text))"
proof (intro conjI impI allI)
  assume h: "structured parse (jsonString text) = None
      \<and> list_ex (\<lambda>sec. 2 \<le> length (parts sec)) (sections text)"
  then show ne: "fallbackCards text \<noteq> []"
    by (simp add: fallbackCards_empty)
  with h show "respond parse text = Reply200 (map cardJson (fallbackCards text))"
    by (simp add: respond_def)
next
  assume h: "structured parse (jsonString text) = None
      \<and> \<not> list_ex (\<lambda>sec. 2 \<le> length (parts sec)) (sections text)"
  then have "fallbackCards text = []"
    by (simp add: fallbackCards_empty)
  with h show "respond parse text = ReplyError 422 ''Failed to parse flashcards from AI response''"
    by (simp add: respond_def)
next
  assume e: "\<exists>code msg. respond parse text = ReplyError code msg"
  then show "structured parse (jsonString text) = None"
    by (cases "structured parse (jsonString text)") (auto simp: respond_def)
  from e show "fallbackCards text = []"
    by (cases "structured parse (jsonString text)"; cases "fallbackCards text = []")
      (auto simp: respond_def)
next
  fix cards assume "structured parse (jsonString text) = Some cards"
  then show "respond parse text = Reply200 cards"
    by (simp add: respond_def)
next
  show "fallbackCards text =
        map (\<lambda>sec. (trim (parts sec ! 0), trim (parts sec ! 1)))
          (filter (\<lambda>sec. 2 \<le> length (parts sec)) (sections text))"
    by (simp add: fallbackCards_def collectCards_shape)
qed

theorem fallback_then_error_witness:
  "structured JSON_parse (jsonString ''Flashcard 1:Front:Q Back:A'') = None
   \<and> list_ex (\<lambda>sec. 2 \<le> length (parts sec)) (sections ''Flashcard 1:Front:Q Back:A'')
   \<and> fallbackCards ''Flashcard 1:Front:Q Back:A'' = [(''Q'', ''A'')]
   \<and> respond JSON_parse ''Flashcard 1:Front:Q Back:A''
       = Reply200 [JObject [(''front'', JString ''Q''), (''back'', JString ''A'')]]
   \<and> structured JSON_parse (jsonString ''Sorry, no cards.'') = None
   \<and> \<not> list_ex (\<lambda>sec. 2 \<le> length (parts sec)) (sections ''Sorry, no cards.'')
   \<and> respond JSON_parse ''Sorry, no cards.''
       = ReplyError 422 ''Failed to parse flashcards from AI response''"
proof -
  have s1: "structured JSON_parse (jsonString ''Flashcard 1:Front:Q Back:A'') = None"
    by code_simp
  have e1: "list_ex (\<lambda>sec. 2 \<le> length (parts sec)) (sections ''Flashcard 1:Front:Q Back:A'')"
    by code_simp
  have f1: "fallbackCards ''Flashcard 1:Front:Q Back:A'' = [(''Q'', ''A'')]"
    by code_simp
  have s2: "structured JSON_parse (jsonString ''Sorry, no cards.'') = None"
    by code_simp
  have e2: "\<not> list_ex (\<lambda>sec. 2 \<le> length (parts sec)) (sections ''Sorry, no cards.'')"
    by code_simp
  from fallback_then_error [of JSON_parse "''Flashcard 1:Front:Q Back:A''"] s1 e1
  have "respond JSON_parse ''Flashcard 1:Front:Q Back:A''
        = Reply200 (map cardJson (fallbackCards ''Flashcard 1:Front:Q Back:A''))"
    by blast
  then have r1: "respond JSON_parse ''Flashcard 1:Front:Q Back:A''
       = Reply200 [JObject [(''front'', JString ''Q''), (''back'', JString ''A'')]]"
    unfolding f1 by (simp add: cardJson_def)
  from fallback_then_error [of JSON_parse "''Sorry, no cards.''"] s2 e2
  have r2: "respond JSON_parse ''Sorry, no cards.''
       = ReplyError 422 ''Failed to parse flashcards from AI response''"
    by blast
  from s1 e1 f1 r1 s2 e2 r2 show ?thesis by blast
qed

end
